theory Spec2Isabelle
  imports Main "HOL-Library.AList"
begin

unbundle bit_operations_syntax


section \<open>Values, errors and wire messages\<close>

text \<open>
  The values the program reads: what \<^verbatim>\<open>JSON.parse\<close> returns, and \<^verbatim>\<open>undefined\<close>
  (the value of a property that is not there). A number is an integer here: the
  program compares numbers with the opcodes, tests them for zero and prints them, and
  the integers of magnitude below \<open>2 ^ 53\<close> are numbers of the language as they are;
  fractions and larger numbers are left out. An object is the list of its own
  properties.
\<close>

datatype jsval =
    Undefined
  | JNull
  | JBool bool
  | JNum int
  | JStr string
  | JArr "jsval list"
  | JObj "(string \<times> jsval) list"

text \<open>
  The exceptions of the program: \<^verbatim>\<open>new Error(message)\<close>, the class
  \<^verbatim>\<open>OBSRequestError(code, comment, requestType)\<close> of the client with the three values
  it was given, and the two the runtime raises: \<^verbatim>\<open>JSON.parse\<close> on bad input, and a
  TypeError, which carries the name of the property that could not be read or called
  (the texts of these messages are the engine's own). \<open>NotAnError v\<close> is the value \<open>v\<close>
  used where an error is expected (a promise may be rejected with any value).
\<close>

datatype jserror =
    Error string
  | OBSRequestError jsval jsval jsval
  | SyntaxError string
  | TypeError string
  | NotAnError jsval

datatype outcome = Resolved jsval | Rejected jserror

text \<open>
  \<open>nullish\<close>: the two values a property cannot be read from. \<open>truthy\<close>: what \<^verbatim>\<open>if\<close>,
  \<^verbatim>\<open>&&\<close> and \<^verbatim>\<open>||\<close> take for true. \<open>field v k\<close> is \<^verbatim>\<open>v.k\<close> for a value that is not
  nullish and a name \<open>k\<close> the program reads (\<open>op\<close>, \<open>d\<close>, \<open>requestId\<close>, ...): none of
  these names is a property of a boolean, a number, a string or an array. \<open>read v k\<close>
  is \<^verbatim>\<open>v.k\<close> for any value: it throws on a nullish one.
\<close>

definition nullish :: "jsval \<Rightarrow> bool" where
  "nullish v \<longleftrightarrow> v = Undefined \<or> v = JNull"

fun truthy :: "jsval \<Rightarrow> bool" where
  "truthy Undefined = False"
| "truthy JNull = False"
| "truthy (JBool b) = b"
| "truthy (JNum n) = (n \<noteq> 0)"
| "truthy (JStr t) = (t \<noteq> [])"
| "truthy (JArr _) = True"
| "truthy (JObj _) = True"

fun field :: "jsval \<Rightarrow> string \<Rightarrow> jsval" where
  "field (JObj properties) k = (case map_of properties k of None \<Rightarrow> Undefined | Some v \<Rightarrow> v)"
| "field _ k = Undefined"

definition read :: "jsval \<Rightarrow> string \<Rightarrow> jserror + jsval" where
  "read v k = (if nullish v then Inl (TypeError k) else Inr (field v k))"

text \<open>
  The conversion to a string that \<^verbatim>\<open>+\<close> (with a string on the other side) and a
  template literal apply to a value. An array is joined with commas, \<^verbatim>\<open>null\<close> and
  \<^verbatim>\<open>undefined\<close> elements giving the empty string. An object gives
  \<^verbatim>\<open>[object Object]\<close>, unless it has a property \<open>toString\<close> of its own: that property
  is not a function, \<^verbatim>\<open>valueOf\<close> does not give a primitive either, and the conversion
  throws a TypeError.
\<close>

fun digit :: "nat \<Rightarrow> char" where
  "digit n = char_of (48 + n)"

fun digits :: "nat \<Rightarrow> string" where
  "digits n = (if n < 10 then [digit n] else digits (n div 10) @ [digit (n mod 10)])"

declare digits.simps [simp del]

definition Number_toString :: "int \<Rightarrow> string" where
  "Number_toString i = (if i < 0 then CHR ''-'' # digits (nat (- i)) else digits (nat i))"

fun ToString :: "jsval \<Rightarrow> jserror + string"
  and join :: "jsval list \<Rightarrow> jserror + string"
where
  "ToString Undefined = Inr ''undefined''"
| "ToString JNull = Inr ''null''"
| "ToString (JBool b) = Inr (if b then ''true'' else ''false'')"
| "ToString (JNum n) = Inr (Number_toString n)"
| "ToString (JStr t) = Inr t"
| "ToString (JArr elements) = join elements"
| "ToString (JObj properties) =
     (if ''toString'' \<in> fst ` set properties then Inl (TypeError ''toString'')
      else Inr ''[object Object]'')"
| "join [] = Inr []"
| "join (x # xs) =
     (case (if nullish x then Inr [] else ToString x) of
        Inl e \<Rightarrow> Inl e
      | Inr t \<Rightarrow>
          (case xs of
             [] \<Rightarrow> Inr t
           | _ \<Rightarrow> (case join xs of Inl e \<Rightarrow> Inl e | Inr u \<Rightarrow> Inr (t @ '','' @ u))))"

text \<open>
  The messages of the protocol as the interfaces declare them, one constructor per
  opcode, the fields of \<^verbatim>\<open>d\<close> in the order of the declarations. The program builds
  the four it sends (in an Identify frame, \<open>rpcVersion\<close> is what it read in the Hello
  frame, whatever that was); the others it reads as values, field by field.
  \<open>JSON_of m\<close> is the value \<^verbatim>\<open>JSON.parse\<close> returns for a frame that holds the message
  \<open>m\<close> and nothing else: a key whose value is \<^verbatim>\<open>undefined\<close> is not in a frame.
\<close>

record request_status =
  result :: bool
  code :: int
  comment :: "string option"

record response =
  requestType :: string
  requestId :: string
  requestStatus :: request_status
  responseData :: jsval

datatype authentication = Authentication (auth_challenge: string) (auth_salt: string)

datatype ws_message =
    Hello string int "authentication option"
  | Identify jsval "string option" "int option"
  | Identified int
  | Reidentify "int option"
  | Event string int jsval
  | Request string string jsval
  | RequestResponse response
  | RequestBatch string "bool option" "int option" "(string \<times> string \<times> jsval) list"
  | RequestBatchResponse string "response list"

fun op :: "ws_message \<Rightarrow> int" where
  "op (Hello _ _ _) = 0"
| "op (Identify _ _ _) = 1"
| "op (Identified _) = 2"
| "op (Reidentify _) = 3"
| "op (Event _ _ _) = 5"
| "op (Request _ _ _) = 6"
| "op (RequestResponse _) = 7"
| "op (RequestBatch _ _ _ _) = 8"
| "op (RequestBatchResponse _ _) = 9"

definition entry :: "string \<Rightarrow> jsval \<Rightarrow> (string \<times> jsval) list" where
  "entry k v = (if v = Undefined then [] else [(k, v)])"

definition optional :: "string \<Rightarrow> ('a \<Rightarrow> jsval) \<Rightarrow> 'a option \<Rightarrow> (string \<times> jsval) list" where
  "optional k f v = (case v of None \<Rightarrow> [] | Some x \<Rightarrow> [(k, f x)])"

definition status_value :: "request_status \<Rightarrow> jsval" where
  "status_value st =
     JObj ([(''result'', JBool (result st)), (''code'', JNum (code st))] @
           optional ''comment'' JStr (comment st))"

definition response_properties :: "response \<Rightarrow> (string \<times> jsval) list" where
  "response_properties r =
     [(''requestType'', JStr (requestType r)), (''requestId'', JStr (requestId r)),
      (''requestStatus'', status_value (requestStatus r))] @
     entry ''responseData'' (responseData r)"

definition member_value :: "string \<times> string \<times> jsval \<Rightarrow> jsval" where
  "member_value m =
     JObj ([(''requestType'', JStr (fst m)), (''requestId'', JStr (fst (snd m)))] @
           entry ''requestData'' (snd (snd m)))"

definition wire :: "int \<Rightarrow> (string \<times> jsval) list \<Rightarrow> jsval" where
  "wire opcode d = JObj [(''op'', JNum opcode), (''d'', JObj d)]"

fun JSON_of :: "ws_message \<Rightarrow> jsval" where
  "JSON_of (Hello v rpc auth) =
     wire 0 ([(''obsWebSocketVersion'', JStr v), (''rpcVersion'', JNum rpc)] @
              optional ''authentication''
                (\<lambda>a. JObj [(''challenge'', JStr (auth_challenge a)), (''salt'', JStr (auth_salt a))])
                auth)"
| "JSON_of (Identify rpc auth subscriptions) =
     wire 1 (entry ''rpcVersion'' rpc @ optional ''authentication'' JStr auth @
              optional ''eventSubscriptions'' JNum subscriptions)"
| "JSON_of (Identified rpc) = wire 2 [(''negotiatedRpcVersion'', JNum rpc)]"
| "JSON_of (Reidentify subscriptions) = wire 3 (optional ''eventSubscriptions'' JNum subscriptions)"
| "JSON_of (Event eventType eventIntent eventData) =
     wire 5 ([(''eventType'', JStr eventType), (''eventIntent'', JNum eventIntent)] @
              entry ''eventData'' eventData)"
| "JSON_of (Request rtype rid requestData) =
     wire 6 ([(''requestType'', JStr rtype), (''requestId'', JStr rid)] @
              entry ''requestData'' requestData)"
| "JSON_of (RequestResponse r) = wire 7 (response_properties r)"
| "JSON_of (RequestBatch rid haltOnFailure executionType requests) =
     wire 8 ([(''requestId'', JStr rid)] @ optional ''haltOnFailure'' JBool haltOnFailure @
              optional ''executionType'' JNum executionType @
              [(''requests'', JArr (map member_value requests))])"
| "JSON_of (RequestBatchResponse rid results) =
     wire 9 [(''requestId'', JStr rid), (''results'', JArr (map (JObj \<circ> response_properties) results))]"

section \<open>The state of an OBSWebSocket instance\<close>

datatype level = LDebug | LInfo | LWarn | LError

datatype logarg = AStr string | ANum int | AErr jserror | AVal jsval

text \<open>
  What is passed to a listener: an error object, or a value (a whole decoded frame
  for the internal \<open>obs:\<close> events, the \<open>eventData\<close> of an Event frame,
  \<open>Payload Undefined\<close> when \<^verbatim>\<open>emit\<close> is called with one argument or when an Event
  frame has no \<open>eventData\<close>).
\<close>

datatype ev_data = Err jserror | Payload jsval

text \<open>
  Closures as data. A promise is the number under which it was created; the pair
  \<^verbatim>\<open>{resolve, reject}\<close> of a promise is that number. The functions handed to
  \<^verbatim>\<open>once\<close> by \<^verbatim>\<open>connect\<close> and \<^verbatim>\<open>identify\<close> are \<open>HelloCb\<close>, \<open>IdentifiedCb\<close>
  and \<open>ErrorCb\<close>, with the variables they capture; \<open>UserFn n\<close> is the n-th function
  of the caller. A listener in a set is either a function as given to \<^verbatim>\<open>on\<close>, or
  the \<^verbatim>\<open>onceWrapper\<close> that \<^verbatim>\<open>once\<close> built around one (each wrapper is a new
  object: it carries the number of its creation).
\<close>

datatype callback =
    UserFn nat
  | HelloCb nat "string option"
  | IdentifiedCb nat
  | ErrorCb nat

datatype listener = Fn callback | OnceWrapper nat callback

record websocket =
  url :: string
  readyState :: nat

definition CONNECTING :: nat where "CONNECTING = 0"
definition OPEN :: nat where "OPEN = 1"
definition CLOSING :: nat where "CLOSING = 2"
definition CLOSED :: nat where "CLOSED = 3"

text \<open>
  The fields of the class, under their names, followed by what the program does to its
  environment: the frames given to the socket and the calls of its \<open>close\<close>, every call
  of a \<open>resolve\<close> or \<open>reject\<close> function in order, the calls of the logger and of
  \<^verbatim>\<open>console.error\<close>, the calls of the caller's functions, and the calls of
  \<open>identify\<close> that are suspended at \<^verbatim>\<open>await generateAuth(...)\<close> (the promise of
  the call, the message built so far, and the three arguments of \<open>generateAuth\<close>).

  \<open>pendingRequests\<close> is a JavaScript Map: an association list in insertion order.
  \<open>listeners\<close> is a Map from event names to Set objects. A Set object is a reference
  into \<open>sets\<close>, because \<open>emit\<close> keeps iterating over the object it has found even when
  \<open>off\<close> has removed it from the Map meanwhile. The contents of a Set are its entry
  list as the language defines it: insertion order, and a deleted entry leaves \<open>None\<close>
  behind, so that a running iteration keeps its position and also visits what is added
  during the iteration.

  The functions of the caller are not part of the program: \<open>user_throws n x\<close> says
  whether the caller's n-th function throws when called with \<open>x\<close>, and what; they are
  taken not to call back into this object while they run.
\<close>

record obs =
  listeners :: "string \<Rightarrow> nat option"
  sets :: "nat \<Rightarrow> listener option list"
  next_set :: nat
  ws :: "websocket option"
  rpcVersion :: jsval
  isConnected :: bool
  isIdentified :: bool
  pendingRequests :: "(string \<times> nat) list"
  eventSubscriptions :: "int option"
  logger :: "level \<Rightarrow> bool"
  reconnectTimer :: "nat option"
  reconnectDelay :: nat
  maxReconnectDelay :: nat
  shouldReconnect :: bool
  sent :: "ws_message list"
  closes :: "(int \<times> string) list"
  settled :: "(nat \<times> outcome) list"
  promises :: nat
  wrappers :: nat
  logged :: "(level \<times> string \<times> logarg list) list"
  console_error :: "(string \<times> jserror) list"
  user_throws :: "nat \<Rightarrow> ev_data \<Rightarrow> jserror option"
  invoked :: "(nat \<times> ev_data) list"
  awaiting_auth :: "(nat \<times> ws_message \<times> string \<times> jsval \<times> jsval) list"

section \<open>Promises, logging, sending\<close>

text \<open>A promise keeps the first outcome it is given; later calls change nothing.\<close>

definition promise_state :: "obs \<Rightarrow> nat \<Rightarrow> outcome option" where
  "promise_state s p = map_of (settled s) p"

definition new_promise :: "obs \<Rightarrow> nat \<times> obs" where
  "new_promise s = (promises s, s\<lparr>promises := Suc (promises s)\<rparr>)"

definition resolve :: "nat \<Rightarrow> jsval \<Rightarrow> obs \<Rightarrow> obs" where
  "resolve p v s = s\<lparr>settled := settled s @ [(p, Resolved v)]\<rparr>"

definition reject :: "nat \<Rightarrow> jserror \<Rightarrow> obs \<Rightarrow> obs" where
  "reject p e s = s\<lparr>settled := settled s @ [(p, Rejected e)]\<rparr>"

definition log :: "level \<Rightarrow> string \<Rightarrow> logarg list \<Rightarrow> obs \<Rightarrow> obs" where
  "log lvl message args s =
     (if logger s lvl then s\<lparr>logged := logged s @ [(lvl, message, args)]\<rparr> else s)"

definition connected :: "obs \<Rightarrow> bool" where
  "connected s = (isConnected s \<and> isIdentified s)"

definition send :: "ws_message \<Rightarrow> obs \<Rightarrow> jserror + obs" where
  "send message s =
     (case ws s of
        None \<Rightarrow> Inl (Error ''WebSocket is not connected'')
      | Some sock \<Rightarrow>
          if readyState sock \<noteq> OPEN then Inl (Error ''WebSocket is not connected'')
          else Inr ((log LDebug ''Sending message:'' [ANum (op message)] s)
                      \<lparr>sent := sent s @ [message]\<rparr>))"

section \<open>Requests and their responses\<close>

text \<open>
  \<^verbatim>\<open>generateRequestId\<close> is not part of the sources at hand: the identifier it returns
  is an argument of \<open>call\<close> and \<open>callBatch\<close> (for a batch, one more per member). The
  promise an \<^verbatim>\<open>async\<close> function returns and the promise its body returns are one
  promise here. The result is that promise and the new state.
\<close>

definition call :: "string \<Rightarrow> string \<Rightarrow> jsval \<Rightarrow> obs \<Rightarrow> nat \<times> obs" where
  "call rid rtype requestData s =
     (let (p, s0) = new_promise s in
      if \<not> connected s0 then (p, reject p (Error ''Not connected to OBS WebSocket'') s0)
      else
        let s1 = s0\<lparr>pendingRequests := AList.update rid p (pendingRequests s0)\<rparr> in
        (case send (Request rtype rid requestData) s1 of
           Inl e \<Rightarrow> (p, reject p e s1)
         | Inr s2 \<Rightarrow> (p, s2)))"

definition callBatch ::
  "string \<Rightarrow> (string \<times> string \<times> jsval) list \<Rightarrow> bool option \<Rightarrow> int option \<Rightarrow> obs \<Rightarrow> nat \<times> obs"
where
  "callBatch rid requests haltOnFailure executionType s =
     (let (p, s0) = new_promise s in
      if \<not> connected s0 then (p, reject p (Error ''Not connected to OBS WebSocket'') s0)
      else
        let s1 = s0\<lparr>pendingRequests := AList.update rid p (pendingRequests s0)\<rparr> in
        (case send (RequestBatch rid haltOnFailure executionType requests) s1 of
           Inl e \<Rightarrow> (p, reject p e s1)
         | Inr s2 \<Rightarrow> (p, s2)))"

text \<open>
  \<^verbatim>\<open>comment || 'Unknown error'\<close>: the comment when it is truthy. The constructor of
  \<open>OBSRequestError\<close> builds its message from a template with \<open>requestType\<close>, \<open>comment\<close>
  and \<open>code\<close> in this order, which converts each to a string, and throws when one of
  them cannot be converted.
\<close>

definition comment_or_unknown :: "jsval \<Rightarrow> jsval" where
  "comment_or_unknown c = (if truthy c then c else JStr ''Unknown error'')"

definition new_OBSRequestError :: "jsval \<Rightarrow> jsval \<Rightarrow> jsval \<Rightarrow> jserror + jserror" where
  "new_OBSRequestError c m t =
     (case ToString t of
        Inl e \<Rightarrow> Inl e
      | Inr _ \<Rightarrow>
          (case ToString m of
             Inl e \<Rightarrow> Inl e
           | Inr _ \<Rightarrow>
               (case ToString c of
                  Inl e \<Rightarrow> Inl e
                | Inr _ \<Rightarrow> Inr (OBSRequestError c m t))))"

text \<open>
  \<open>pendingRequests\<close> has strings for keys: looking up or deleting any other value
  finds nothing.
\<close>

definition Map_get :: "(string \<times> nat) list \<Rightarrow> jsval \<Rightarrow> nat option" where
  "Map_get m k = (case k of JStr t \<Rightarrow> map_of m t | _ \<Rightarrow> None)"

definition Map_delete :: "jsval \<Rightarrow> (string \<times> nat) list \<Rightarrow> (string \<times> nat) list" where
  "Map_delete k m = (case k of JStr t \<Rightarrow> AList.delete t m | _ \<Rightarrow> m)"

text \<open>
  The handlers of \<open>handleMessage\<close> return what they throw, if they throw, and the
  state they leave. \<open>handleRequestResponse\<close> throws when \<^verbatim>\<open>message.d\<close> cannot be
  destructured, before it has done anything; and when \<open>requestStatus\<close> cannot be read
  or the error cannot be built, after it has deleted the entry.
\<close>

definition handleRequestResponse :: "jsval \<Rightarrow> obs \<Rightarrow> jserror option \<times> obs" where
  "handleRequestResponse message s =
     (case read message ''d'' of
        Inl e \<Rightarrow> (Some e, s)
      | Inr d \<Rightarrow>
          (case read d ''requestId'' of
             Inl e \<Rightarrow> (Some e, s)
           | Inr rid \<Rightarrow>
               (case Map_get (pendingRequests s) rid of
                  None \<Rightarrow>
                    (None, log LWarn ''Received response for unknown request:'' [AVal rid] s)
                | Some pending \<Rightarrow>
                    (let s1 = s\<lparr>pendingRequests := Map_delete rid (pendingRequests s)\<rparr> in
                     case read (field d ''requestStatus'') ''result'' of
                       Inl e \<Rightarrow> (Some e, s1)
                     | Inr r \<Rightarrow>
                         if truthy r then (None, resolve pending (field d ''responseData'') s1)
                         else
                           (case new_OBSRequestError (field (field d ''requestStatus'') ''code'')
                                   (comment_or_unknown (field (field d ''requestStatus'') ''comment''))
                                   (field d ''requestType'') of
                              Inl e \<Rightarrow> (Some e, s1)
                            | Inr error \<Rightarrow> (None, reject pending error s1))))))"

text \<open>
  The callback of \<^verbatim>\<open>results.map\<close>: the first member whose status is a failure throws,
  which ends the map, as does a member or a status that cannot be read; otherwise the
  payloads are collected in order. \<^verbatim>\<open>results.map\<close> itself throws when \<open>results\<close> is
  not an array.
\<close>

definition map_callback :: "jsval \<Rightarrow> jserror + jsval" where
  "map_callback r =
     (case read r ''requestStatus'' of
        Inl e \<Rightarrow> Inl e
      | Inr st \<Rightarrow>
          (case read st ''result'' of
             Inl e \<Rightarrow> Inl e
           | Inr ok \<Rightarrow>
               if truthy ok then Inr (field r ''responseData'')
               else
                 (case new_OBSRequestError (field st ''code'') (comment_or_unknown (field st ''comment''))
                         (field r ''requestType'') of
                    Inl e \<Rightarrow> Inl e
                  | Inr error \<Rightarrow> Inl error)))"

fun map_results :: "jsval list \<Rightarrow> jserror + jsval list" where
  "map_results [] = Inr []"
| "map_results (r # rs) =
     (case map_callback r of
        Inl e \<Rightarrow> Inl e
      | Inr v \<Rightarrow> (case map_results rs of Inl e \<Rightarrow> Inl e | Inr vs \<Rightarrow> Inr (v # vs)))"

definition results_map :: "jsval \<Rightarrow> jserror + jsval list" where
  "results_map results =
     (case results of JArr rs \<Rightarrow> map_results rs | _ \<Rightarrow> Inl (TypeError ''map''))"

definition handleBatchResponse :: "jsval \<Rightarrow> obs \<Rightarrow> jserror option \<times> obs" where
  "handleBatchResponse message s =
     (case read message ''d'' of
        Inl e \<Rightarrow> (Some e, s)
      | Inr d \<Rightarrow>
          (case read d ''requestId'' of
             Inl e \<Rightarrow> (Some e, s)
           | Inr rid \<Rightarrow>
               (case Map_get (pendingRequests s) rid of
                  None \<Rightarrow>
                    (None,
                     log LWarn ''Received batch response for unknown request:'' [AVal rid] s)
                | Some pending \<Rightarrow>
                    (let s1 = s\<lparr>pendingRequests := Map_delete rid (pendingRequests s)\<rparr> in
                     case results_map (field d ''results'') of
                       Inr responses \<Rightarrow> (None, resolve pending (JArr responses) s1)
                     | Inl e \<Rightarrow> (None, reject pending e s1)))))"

section \<open>The authentication string\<close>

text \<open>
  \<open>generateAuth\<close> uses three functions of the runtime: \<^verbatim>\<open>TextEncoder.encode\<close>
  (UTF-8), \<^verbatim>\<open>crypto.subtle.digest('SHA-256', _)\<close> and
  \<^verbatim>\<open>btoa(String.fromCharCode(...bytes))\<close> (Base64 of a byte sequence). They are
  modelled by their standards (RFC 3629, FIPS 180-4, RFC 4648) on bytes as natural
  numbers; 32-bit words are natural numbers with the reduction modulo \<open>2 ^ 32\<close> written
  out. A string is a list of characters with codes below 256.
\<close>

definition TextEncoder_encode :: "string \<Rightarrow> nat list" where
  "TextEncoder_encode t =
     concat (map (\<lambda>c. if of_char c < (128 :: nat) then [of_char c]
                      else [192 + of_char c div 64, 128 + of_char c mod 64]) t)"

definition K :: "nat list" where
  "K = [1116352408, 1899447441, 3049323471, 3921009573, 961987163, 1508970993, 2453635748, 2870763221,
        3624381080, 310598401, 607225278, 1426881987, 1925078388, 2162078206, 2614888103, 3248222580,
        3835390401, 4022224774, 264347078, 604807628, 770255983, 1249150122, 1555081692, 1996064986,
        2554220882, 2821834349, 2952996808, 3210313671, 3336571891, 3584528711, 113926993, 338241895,
        666307205, 773529912, 1294757372, 1396182291, 1695183700, 1986661051, 2177026350, 2456956037,
        2730485921, 2820302411, 3259730800, 3345764771, 3516065817, 3600352804, 4094571909, 275423344,
        430227734, 506948616, 659060556, 883997877, 958139571, 1322822218, 1537002063, 1747873779,
        1955562222, 2024104815, 2227730452, 2361852424, 2428436474, 2756734187, 3204031479, 3329325298]"

definition H0 :: "nat list" where
  "H0 = [1779033703, 3144134277, 1013904242, 2773480762, 1359893119, 2600822924, 528734635, 1541459225]"

definition rotr :: "nat \<Rightarrow> nat \<Rightarrow> nat" where
  "rotr n x = x div 2 ^ n + (x mod 2 ^ n) * 2 ^ (32 - n)"

definition add32 :: "nat \<Rightarrow> nat \<Rightarrow> nat" where
  "add32 x y = (x + y) mod 4294967296"

definition Ch :: "nat \<Rightarrow> nat \<Rightarrow> nat \<Rightarrow> nat" where
  "Ch e f g = (e AND f) XOR ((4294967295 - e) AND g)"

definition Maj :: "nat \<Rightarrow> nat \<Rightarrow> nat \<Rightarrow> nat" where
  "Maj a b c = (a AND b) XOR (a AND c) XOR (b AND c)"

definition Sigma0 :: "nat \<Rightarrow> nat" where
  "Sigma0 a = rotr 2 a XOR rotr 13 a XOR rotr 22 a"

definition Sigma1 :: "nat \<Rightarrow> nat" where
  "Sigma1 e = rotr 6 e XOR rotr 11 e XOR rotr 25 e"

definition sigma0 :: "nat \<Rightarrow> nat" where
  "sigma0 w = rotr 7 w XOR rotr 18 w XOR w div 2 ^ 3"

definition sigma1 :: "nat \<Rightarrow> nat" where
  "sigma1 w = rotr 17 w XOR rotr 19 w XOR w div 2 ^ 10"

fun words :: "nat list \<Rightarrow> nat list" where
  "words (a # b # c # d # bs) = (((a * 256 + b) * 256 + c) * 256 + d) # words bs"
| "words _ = []"

fun schedule :: "nat list \<Rightarrow> nat list \<Rightarrow> nat list" where
  "schedule w [] = w"
| "schedule w (t # ts) =
     schedule (w @ [add32 (add32 (sigma1 (w ! (t - 2))) (w ! (t - 7)))
                      (add32 (sigma0 (w ! (t - 15))) (w ! (t - 16)))]) ts"

fun round :: "nat list \<Rightarrow> nat \<times> nat \<Rightarrow> nat list" where
  "round [a, b, c, d, e, f, g, h] (k, w) =
     (let t1 = add32 (add32 (add32 (add32 h (Sigma1 e)) (Ch e f g)) k) w;
          t2 = add32 (Sigma0 a) (Maj a b c)
      in [add32 t1 t2, a, b, c, add32 d t1, e, f, g])"
| "round v _ = v"

definition compress :: "nat list \<Rightarrow> nat list \<Rightarrow> nat list" where
  "compress h block =
     map2 add32 h (foldl round h (zip K (schedule (words block) [16..<64])))"

fun blocks :: "nat list \<Rightarrow> nat list list" where
  "blocks bs = (if length bs < 64 then [] else take 64 bs # blocks (drop 64 bs))"

definition be32 :: "nat \<Rightarrow> nat list" where
  "be32 x = [x div 16777216 mod 256, x div 65536 mod 256, x div 256 mod 256, x mod 256]"

definition be64 :: "nat \<Rightarrow> nat list" where
  "be64 x = be32 (x div 4294967296) @ be32 (x mod 4294967296)"

definition pad :: "nat list \<Rightarrow> nat list" where
  "pad m = m @ [128] @ replicate ((119 - length m mod 64) mod 64) 0 @ be64 (8 * length m)"

definition digest_SHA256 :: "nat list \<Rightarrow> nat list" where
  "digest_SHA256 m = concat (map be32 (foldl compress H0 (blocks (pad m))))"

definition base64_alphabet :: string where
  "base64_alphabet = ''ABCDEFGHIJKLMNOPQRSTUVWXYZabcdefghijklmnopqrstuvwxyz0123456789+/''"

fun btoa_bytes :: "nat list \<Rightarrow> string" where
  "btoa_bytes (a # b # c # bs) =
     [base64_alphabet ! (a div 4), base64_alphabet ! (a mod 4 * 16 + b div 16),
      base64_alphabet ! (b mod 16 * 4 + c div 64), base64_alphabet ! (c mod 64)] @ btoa_bytes bs"
| "btoa_bytes [a, b] =
     [base64_alphabet ! (a div 4), base64_alphabet ! (a mod 4 * 16 + b div 16),
      base64_alphabet ! (b mod 16 * 4), CHR ''='']"
| "btoa_bytes [a] =
     [base64_alphabet ! (a div 4), base64_alphabet ! (a mod 4 * 16), CHR ''='', CHR ''='']"
| "btoa_bytes [] = []"

definition generateAuth :: "string \<Rightarrow> string \<Rightarrow> string \<Rightarrow> string" where
  "generateAuth password salt challenge =
     (let secretHash = digest_SHA256 (TextEncoder_encode (password @ salt));
          base64Secret = btoa_bytes secretHash;
          authHash = digest_SHA256 (TextEncoder_encode (base64Secret @ challenge))
      in btoa_bytes authHash)"

text \<open>
  The declared type of \<open>salt\<close> and \<open>challenge\<close> is \<^verbatim>\<open>string\<close>, but they are what the
  frame held: \<^verbatim>\<open>password + salt\<close> and \<^verbatim>\<open>base64Secret + challenge\<close> convert them to
  strings, and what the conversion throws rejects the promise of \<open>generateAuth\<close>.
\<close>

definition generateAuth_any :: "string \<Rightarrow> jsval \<Rightarrow> jsval \<Rightarrow> jserror + string" where
  "generateAuth_any password salt challenge =
     (case ToString salt of
        Inl e \<Rightarrow> Inl e
      | Inr t \<Rightarrow>
          (case ToString challenge of
             Inl e \<Rightarrow> Inl e
           | Inr u \<Rightarrow> Inr (generateAuth password t u)))"

section \<open>EventEmitter\<close>

definition on :: "string \<Rightarrow> listener \<Rightarrow> obs \<Rightarrow> obs" where
  "on event l s =
     (let (r, s1) =
        (case listeners s event of
           Some r \<Rightarrow> (r, s)
         | None \<Rightarrow>
             (next_set s,
              s\<lparr>listeners := (listeners s)(event \<mapsto> next_set s),
                sets := (sets s)(next_set s := []),
                next_set := Suc (next_set s)\<rparr>))
      in if Some l \<in> set (sets s1 r) then s1
         else s1\<lparr>sets := (sets s1)(r := sets s1 r @ [Some l])\<rparr>)"

definition once :: "string \<Rightarrow> callback \<Rightarrow> obs \<Rightarrow> obs" where
  "once event cb s = on event (OnceWrapper (wrappers s) cb) (s\<lparr>wrappers := Suc (wrappers s)\<rparr>)"

definition off :: "string \<Rightarrow> listener \<Rightarrow> obs \<Rightarrow> obs" where
  "off event l s =
     (case listeners s event of
        None \<Rightarrow> s
      | Some r \<Rightarrow>
          let s1 = s\<lparr>sets := (sets s)(r := map (\<lambda>e. if e = Some l then None else e) (sets s r))\<rparr>
          in if \<forall>e \<in> set (sets s1 r). e = None
             then s1\<lparr>listeners := (listeners s1)(event := None)\<rparr>
             else s1)"

text \<open>
  \<^verbatim>\<open>if (event)\<close>: the empty name is falsy, like no name.
\<close>

definition removeAllListeners :: "string option \<Rightarrow> obs \<Rightarrow> obs" where
  "removeAllListeners event s =
     (case event of
        None \<Rightarrow> s\<lparr>listeners := Map.empty\<rparr>
      | Some name \<Rightarrow>
          if name = [] then s\<lparr>listeners := Map.empty\<rparr>
          else s\<lparr>listeners := (listeners s)(name := None)\<rparr>)"

fun callback_of :: "listener \<Rightarrow> callback" where
  "callback_of (Fn cb) = cb"
| "callback_of (OnceWrapper _ cb) = cb"

text \<open>
  What the body of \<^verbatim>\<open>onceWrapper\<close> does before it calls the function it wraps.
\<close>

fun unwrap :: "string \<Rightarrow> listener \<Rightarrow> obs \<Rightarrow> obs" where
  "unwrap event (Fn _) s = s"
| "unwrap event (OnceWrapper w cb) s = off event (OnceWrapper w cb) s"

definition console_error_listener :: "string \<Rightarrow> jserror \<Rightarrow> obs \<Rightarrow> obs" where
  "console_error_listener event e s = s\<lparr>console_error := console_error s @ [(event, e)]\<rparr>"

text \<open>
  The reason a promise is rejected with when \<open>reject\<close> is given \<open>x\<close>, and \<^verbatim>\<open>x.d\<close>
  for what a listener was given: an error object has no property \<open>d\<close>.
\<close>

fun reason :: "ev_data \<Rightarrow> jserror" where
  "reason (Err e) = e"
| "reason (Payload v) = NotAnError v"

fun read_d :: "ev_data \<Rightarrow> jserror + jsval" where
  "read_d (Payload v) = read v ''d''"
| "read_d (Err (NotAnError v)) = read v ''d''"
| "read_d (Err _) = Inr Undefined"

text \<open>\<^verbatim>\<open>password\<close> as a condition: no password and the empty password are falsy.\<close>

definition given :: "string option \<Rightarrow> bool" where
  "given password = (case password of None \<Rightarrow> False | Some t \<Rightarrow> t \<noteq> [])"

definition send_or_reject :: "nat \<Rightarrow> ws_message \<Rightarrow> obs \<Rightarrow> obs" where
  "send_or_reject c message s =
     (case send message s of Inl e \<Rightarrow> reject c e s | Inr s1 \<Rightarrow> s1)"

text \<open>
  \<open>identify\<close>, in two parts. \<open>identify_executor\<close> is the executor of the promise it
  returns, which runs at once: it registers the two listeners and sends the frame; an
  exception of \<open>send\<close> rejects the promise. The listener of \<open>obs:Hello\<close> awaits that
  promise and hands its outcome to the promise of \<open>connect\<close>: the two are one promise
  \<open>c\<close> here. \<open>identify\<close> reads \<^verbatim>\<open>hello.d.rpcVersion\<close> and
  \<^verbatim>\<open>hello.d.authentication\<close> from whatever the listener was given, and what it throws
  rejects the promise. With a challenge and a password it stops at
  \<^verbatim>\<open>await generateAuth(...)\<close> with the message built so far; \<open>auth_ready\<close> below is
  its continuation.
\<close>

definition identify_executor :: "nat \<Rightarrow> ws_message \<Rightarrow> obs \<Rightarrow> obs" where
  "identify_executor c message s =
     send_or_reject c message (once ''obs:error'' (ErrorCb c) (once ''obs:Identified'' (IdentifiedCb c) s))"

definition identify :: "nat \<Rightarrow> ev_data \<Rightarrow> string option \<Rightarrow> obs \<Rightarrow> obs" where
  "identify c hello password s =
     (case read_d hello of
        Inl e \<Rightarrow> reject c e s
      | Inr d \<Rightarrow>
          (case read d ''rpcVersion'' of
             Inl e \<Rightarrow> reject c e s
           | Inr rpc \<Rightarrow>
               (let message = Identify rpc None (eventSubscriptions s);
                    auth = field d ''authentication''
                in if truthy auth \<and> given password
                   then s\<lparr>awaiting_auth := awaiting_auth s @
                            [(c, message, the password, field auth ''salt'',
                              field auth ''challenge'')]\<rparr>
                   else if truthy auth \<and> \<not> given password
                   then reject c (Error ''Server requires authentication but no password provided'') s
                   else identify_executor c message s)))"

text \<open>
  The listeners that do not emit: a function of the caller, the listener of
  \<open>obs:Hello\<close> (an \<^verbatim>\<open>async\<close> function: it never throws into \<open>emit\<close>), and the listener
  of \<open>obs:error\<close>. The result is what the call throws, if it throws, and the new state.
\<close>

fun run_callback :: "callback \<Rightarrow> ev_data \<Rightarrow> obs \<Rightarrow> jserror option \<times> obs" where
  "run_callback (UserFn n) x s = (user_throws s n x, s\<lparr>invoked := invoked s @ [(n, x)]\<rparr>)"
| "run_callback (HelloCb c password) x s = (None, identify c x password s)"
| "run_callback (ErrorCb c) x s = (None, reject c (reason x) s)"
| "run_callback (IdentifiedCb c) x s = (None, s)"

fun is_IdentifiedCb :: "callback \<Rightarrow> nat option" where
  "is_IdentifiedCb (IdentifiedCb c) = Some c"
| "is_IdentifiedCb _ = None"

definition caught :: "string \<Rightarrow> jserror option \<times> obs \<Rightarrow> obs" where
  "caught event r = (case fst r of None \<Rightarrow> snd r | Some e \<Rightarrow> console_error_listener event e (snd r))"

text \<open>
  The loop of \<open>emit\<close> over the Set \<open>r\<close>, from entry \<open>i\<close> on: each listener is called
  inside \<^verbatim>\<open>try\<close>, and what it throws goes to \<^verbatim>\<open>console.error\<close>. The listener of
  \<open>obs:Identified\<close> sets \<open>isIdentified\<close>, reads \<^verbatim>\<open>identified.d\<close> (which throws when
  it was given \<^verbatim>\<open>undefined\<close> or \<^verbatim>\<open>null\<close>), emits two events and resolves its
  promise: the loop is called from within the loop;
  it need not end (a listener can keep adding listeners), and \<open>None\<close> stands for a
  loop that does not end.
\<close>

partial_function (option) for_of :: "nat \<Rightarrow> string \<Rightarrow> ev_data \<Rightarrow> nat \<Rightarrow> obs \<Rightarrow> obs option" where
  "for_of r event x i s =
     (if length (sets s r) \<le> i then Some s
      else
        (case sets s r ! i of
           None \<Rightarrow> for_of r event x (Suc i) s
         | Some l \<Rightarrow>
             (case is_IdentifiedCb (callback_of l) of
                None \<Rightarrow>
                  for_of r event x (Suc i) (caught event (run_callback (callback_of l) x (unwrap event l s)))
              | Some c \<Rightarrow>
                  (case read_d x of
                     Inl e \<Rightarrow>
                       for_of r event x (Suc i)
                         (console_error_listener event e
                            ((unwrap event l s)\<lparr>isIdentified := True\<rparr>))
                   | Inr d \<Rightarrow>
                       Option.bind
                         (case listeners ((unwrap event l s)\<lparr>isIdentified := True\<rparr>) ''Identified'' of
                            None \<Rightarrow> Some ((unwrap event l s)\<lparr>isIdentified := True\<rparr>)
                          | Some r1 \<Rightarrow>
                              for_of r1 ''Identified'' (Payload d) 0
                                ((unwrap event l s)\<lparr>isIdentified := True\<rparr>))
                         (\<lambda>s1.
                            Option.bind
                              (case listeners s1 ''ConnectionOpened'' of
                                 None \<Rightarrow> Some s1
                               | Some r2 \<Rightarrow> for_of r2 ''ConnectionOpened'' (Payload Undefined) 0 s1)
                              (\<lambda>s2. for_of r event x (Suc i) (resolve c Undefined s2)))))))"

definition emit :: "string \<Rightarrow> ev_data \<Rightarrow> obs \<Rightarrow> obs option" where
  "emit event x s =
     (case listeners s event of None \<Rightarrow> Some s | Some r \<Rightarrow> for_of r event x 0 s)"


section \<open>OBSWebSocket\<close>

text \<open>
  \<^verbatim>\<open>EventSubscription.All\<close> is \<^verbatim>\<open>(1 << 11) - 1\<close>. The constructor spreads the options
  over the default: \<open>None\<close> is an options object without the key, \<open>Some v\<close> one with
  the key (whose value may be \<^verbatim>\<open>undefined\<close>). The logger is given by the levels it
  has a function for, the caller's functions by \<open>user_throws\<close>.
\<close>

definition EventSubscription_All :: int where
  "EventSubscription_All = 2 ^ 11 - 1"

definition OBSWebSocket ::
  "int option option \<Rightarrow> (level \<Rightarrow> bool) \<Rightarrow> (nat \<Rightarrow> ev_data \<Rightarrow> jserror option) \<Rightarrow> obs"
where
  "OBSWebSocket subscriptions lg fns =
     \<lparr>listeners = Map.empty, sets = (\<lambda>_. []), next_set = 0, ws = None, rpcVersion = JNum 1,
      isConnected = False, isIdentified = False, pendingRequests = [],
      eventSubscriptions =
        (case subscriptions of None \<Rightarrow> Some EventSubscription_All | Some v \<Rightarrow> v),
      logger = lg, reconnectTimer = None, reconnectDelay = 1000, maxReconnectDelay = 30000,
      shouldReconnect = False, sent = [], closes = [], settled = [], promises = 0,
      wrappers = 0, logged = [], console_error = [], user_throws = fns, invoked = [],
      awaiting_auth = []\<rparr>"

text \<open>
  \<open>connect\<close>. The functions \<^verbatim>\<open>onError\<close> and \<^verbatim>\<open>onClose\<close> of the source are never
  registered on the socket; the four that are registered are \<open>handleMessage\<close>,
  \<open>onOpen\<close>, \<open>handleClose\<close> and \<open>handleError\<close> below, which the environment calls.
\<close>

definition connect :: "string option \<Rightarrow> string option \<Rightarrow> obs \<Rightarrow> nat \<times> obs" where
  "connect address password s =
     (let (c, s0) = new_promise s in
      if ws s0 \<noteq> None then (c, reject c (Error ''Already connected or connecting'') s0)
      else
        let u = (case address of None \<Rightarrow> ''ws://localhost:4455'' | Some a \<Rightarrow> a);
            s1 = s0\<lparr>shouldReconnect := True, reconnectDelay := 1000\<rparr>;
            s2 = log LDebug ''Connecting to'' [AStr u] s1;
            s3 = s2\<lparr>ws := Some \<lparr>url = u, readyState = CONNECTING\<rparr>\<rparr>
        in (c, once ''obs:Hello'' (HelloCb c password) s3))"

definition onOpen :: "obs \<Rightarrow> obs" where
  "onOpen s = (log LDebug ''WebSocket connected'' [] s)\<lparr>isConnected := True\<rparr>"

text \<open>
  The continuation of the oldest suspended \<open>identify\<close> when the promise of
  \<open>generateAuth\<close> is settled: \<^verbatim>\<open>message.d.authentication = ...\<close> and the executor,
  or the rejection.
\<close>

fun with_authentication :: "string \<Rightarrow> ws_message \<Rightarrow> ws_message" where
  "with_authentication a (Identify rpc _ subscriptions) = Identify rpc (Some a) subscriptions"
| "with_authentication a message = message"

definition auth_ready :: "obs \<Rightarrow> obs" where
  "auth_ready s =
     (case awaiting_auth s of
        [] \<Rightarrow> s
      | (c, message, password, salt, challenge) # rest \<Rightarrow>
          (case generateAuth_any password salt challenge of
             Inl e \<Rightarrow> reject c e (s\<lparr>awaiting_auth := rest\<rparr>)
           | Inr a \<Rightarrow> identify_executor c (with_authentication a message) (s\<lparr>awaiting_auth := rest\<rparr>)))"

definition reject_all :: "obs \<Rightarrow> obs" where
  "reject_all s =
     foldl (\<lambda>t entry. reject (snd entry) (Error ''Connection closed'') t) s (pendingRequests s)"

definition clearTimeout :: "obs \<Rightarrow> obs" where
  "clearTimeout s = s\<lparr>reconnectTimer := None\<rparr>"

definition disconnect :: "obs \<Rightarrow> obs option" where
  "disconnect s =
     (let s1 = s\<lparr>shouldReconnect := False\<rparr>;
          s2 = (if reconnectTimer s1 \<noteq> None then clearTimeout s1 else s1);
          s3 = (case ws s2 of
                  None \<Rightarrow> s2
                | Some sock \<Rightarrow> s2\<lparr>closes := closes s2 @ [(1000, ''Client disconnect'')], ws := None\<rparr>);
          s4 = s3\<lparr>isConnected := False, isIdentified := False\<rparr>;
          s5 = (reject_all s4)\<lparr>pendingRequests := []\<rparr>
      in emit ''ConnectionClosed''
           (Payload (JObj [(''code'', JNum 1000), (''reason'', JStr ''Client disconnect'')])) s5)"

definition reidentify :: "int option \<Rightarrow> obs \<Rightarrow> jserror + obs" where
  "reidentify subscriptions s =
     (if \<not> connected s then Inl (Error ''Not connected to OBS WebSocket'')
      else send (Reidentify (case subscriptions of None \<Rightarrow> eventSubscriptions s | Some v \<Rightarrow> Some v)) s)"

text \<open>
  \<open>handleEvent\<close> throws when \<^verbatim>\<open>message.d\<close> cannot be destructured. The listeners
  are kept under strings: an \<open>eventType\<close> that is not a string has none.
\<close>

definition handleEvent :: "jsval \<Rightarrow> obs \<Rightarrow> (jserror option \<times> obs) option" where
  "handleEvent message s =
     (case read message ''d'' of
        Inl e \<Rightarrow> Some (Some e, s)
      | Inr d \<Rightarrow>
          (case read d ''eventType'' of
             Inl e \<Rightarrow> Some (Some e, s)
           | Inr eventType \<Rightarrow>
               map_option (Pair None)
                 (case eventType of
                    JStr name \<Rightarrow>
                      emit name (Payload (field d ''eventData''))
                        (log LDebug ''Event received:'' [AVal eventType] s)
                  | _ \<Rightarrow> Some (log LDebug ''Event received:'' [AVal eventType] s))))"

text \<open>
  \<^verbatim>\<open>JSON.parse\<close> belongs to the runtime: it is a parameter, and gives the error it
  throws or the value it decodes. \<open>dispatch\<close> is the body of the \<^verbatim>\<open>try\<close> after the
  parse, \<open>parse_failed\<close> the \<^verbatim>\<open>catch\<close>, which gets whatever the body throws. The text
  of the info message of \<open>scheduleReconnect\<close> contains the delay, which is given as an
  argument of the log call here.
\<close>

definition dispatch :: "jsval \<Rightarrow> obs \<Rightarrow> (jserror option \<times> obs) option" where
  "dispatch message s =
     (case read message ''op'' of
        Inl e \<Rightarrow> Some (Some e, s)
      | Inr opcode \<Rightarrow>
          (let s1 = log LDebug ''Received message:'' [AVal opcode] s in
           if opcode = JNum 0 then map_option (Pair None) (emit ''obs:Hello'' (Payload message) s1)
           else if opcode = JNum 2 then
             (case read (field message ''d'') ''negotiatedRpcVersion'' of
                Inl e \<Rightarrow> Some (Some e, s1)
              | Inr v \<Rightarrow>
                  map_option (Pair None)
                    (emit ''obs:Identified'' (Payload message) (s1\<lparr>rpcVersion := v\<rparr>)))
           else if opcode = JNum 5 then handleEvent message s1
           else if opcode = JNum 7 then Some (handleRequestResponse message s1)
           else if opcode = JNum 9 then Some (handleBatchResponse message s1)
           else Some (None, log LWarn ''Unknown message opcode:'' [AVal opcode] s1)))"

definition parse_failed :: "jserror \<Rightarrow> obs \<Rightarrow> obs option" where
  "parse_failed error s =
     emit ''obs:error'' (Err error) (log LError ''Failed to parse message:'' [AErr error] s)"

definition handleMessage :: "(string \<Rightarrow> jserror + jsval) \<Rightarrow> string \<Rightarrow> obs \<Rightarrow> obs option" where
  "handleMessage JSON_parse event_data s =
     (case JSON_parse event_data of
        Inl error \<Rightarrow> parse_failed error s
      | Inr message \<Rightarrow>
          Option.bind (dispatch message s)
            (\<lambda>r. case fst r of None \<Rightarrow> Some (snd r) | Some error \<Rightarrow> parse_failed error (snd r)))"

definition scheduleReconnect :: "obs \<Rightarrow> obs" where
  "scheduleReconnect s =
     (let s1 = (if reconnectTimer s \<noteq> None then clearTimeout s else s);
          s2 = log LInfo ''Reconnecting in ${this.reconnectDelay}ms...'' [ANum (int (reconnectDelay s1))] s1
      in s2\<lparr>reconnectTimer := Some (reconnectDelay s2)\<rparr>)"


definition handleClose :: "int \<Rightarrow> string \<Rightarrow> obs \<Rightarrow> obs option" where
  "handleClose close_code close_reason s =
     (let s1 = log LInfo ''WebSocket closed:'' [ANum close_code, AStr close_reason] s;
          s2 = s1\<lparr>isConnected := False, isIdentified := False, ws := None\<rparr>;
          s3 = (reject_all s2)\<lparr>pendingRequests := []\<rparr>
      in Option.bind
           (emit ''ConnectionClosed''
              (Payload (JObj [(''code'', JNum close_code), (''reason'', JStr close_reason)])) s3)
           (\<lambda>s4. Some (if shouldReconnect s4 \<and> close_code \<noteq> 1000 then scheduleReconnect s4 else s4)))"

definition handleError :: "obs \<Rightarrow> obs option" where
  "handleError s =
     emit ''obs:error'' (Err (Error ''WebSocket error''))
       (log LError ''WebSocket error:'' [] s)"


section \<open>Notions used in the statements\<close>

text \<open>
  A session that accepts calls: the two flags are set and the socket is open. Every
  promise that an entry of the map or a settlement names has been created (\<open>promises\<close>
  counts the promises created so far). A sequence of calls.
\<close>

definition ready :: "obs \<Rightarrow> bool" where
  "ready s \<longleftrightarrow> connected s \<and> (\<exists>sock. ws s = Some sock \<and> readyState sock = OPEN)"

definition allocated :: "obs \<Rightarrow> bool" where
  "allocated s \<longleftrightarrow>
     (\<forall>p \<in> fst ` set (settled s) \<union> snd ` set (pendingRequests s). p < promises s)"

fun calls :: "(string \<times> string \<times> jsval) list \<Rightarrow> obs \<Rightarrow> nat list \<times> obs" where
  "calls [] s = ([], s)"
| "calls ((rid, rtype, requestData) # cs) s =
     (let (p, s1) = call rid rtype requestData s; (ps, s2) = calls cs s1 in (p # ps, s2))"

text \<open>
  Example data. The environment opens the socket of \<open>connect\<close>: its \<open>readyState\<close>
  becomes \<open>OPEN\<close> and \<open>onOpen\<close> runs; later the socket starts to close: its
  \<open>readyState\<close> becomes \<open>CLOSING\<close>, and the close event follows. \<open>example_parse\<close>
  decodes the four frames of the examples and fails on every other text (the texts
  only name the frames). \<open>established\<close> is a new instance after \<open>connect\<close>, the opening
  of the socket, a Hello without challenge and an Identified frame; \<open>observed\<close> has
  listeners of the caller in addition (the function 0 always throws); \<open>two_pending\<close>
  and \<open>busy\<close> have two calls under way.
\<close>

definition open_event :: "obs \<Rightarrow> obs" where
  "open_event s = onOpen (s\<lparr>ws := map_option (\<lambda>sock. sock\<lparr>readyState := OPEN\<rparr>) (ws s)\<rparr>)"

definition closing_event :: "obs \<Rightarrow> obs" where
  "closing_event s = s\<lparr>ws := map_option (\<lambda>sock. sock\<lparr>readyState := CLOSING\<rparr>) (ws s)\<rparr>"

definition example_challenge :: authentication where
  "example_challenge =
     Authentication ''+IxH4CnCiqpX1rM9scsNynZzbOe4KhDeYcTNS3PDaeY=''
       ''lM1GncleQOaCu9lT1yeUZhFYnqhsLLP1G5lAGo3ixaI=''"

definition example_parse :: "string \<Rightarrow> jserror + jsval" where
  "example_parse t =
     (if t = ''hello'' then Inr (JSON_of (Hello ''5.0.0'' 1 None))
      else if t = ''hello with challenge'' then Inr (JSON_of (Hello ''5.0.0'' 1 (Some example_challenge)))
      else if t = ''identified'' then Inr (JSON_of (Identified 1))
      else if t = ''exit started'' then Inr (JSON_of (Event ''ExitStarted'' 1 Undefined))
      else Inl (SyntaxError ''Unexpected token''))"

definition fresh :: obs where
  "fresh =
     OBSWebSocket None (\<lambda>_. True) (\<lambda>n x. if n = 0 then Some (Error ''listener failed'') else None)"

definition established :: obs where
  "established =
     the (Option.bind
            (handleMessage example_parse ''hello'' (open_event (snd (connect None None fresh))))
            (handleMessage example_parse ''identified''))"

definition observed :: obs where
  "observed =
     on ''obs:reconnect'' (Fn (UserFn 5))
       (on ''ConnectionClosed'' (Fn (UserFn 4))
          (on ''obs:error'' (Fn (UserFn 3))
             (on ''ExitStarted'' (Fn (UserFn 2))
                (once ''ExitStarted'' (UserFn 1)
                   (on ''ExitStarted'' (Fn (UserFn 0)) established)))))"

definition version_ok :: response where
  "version_ok = \<lparr>requestType = ''GetVersion'', requestId = ''r1'',
     requestStatus = \<lparr>result = True, code = 100, comment = None\<rparr>,
     responseData = JObj [(''obsVersion'', JStr ''28.0.0'')]\<rparr>"

definition stats_failed :: response where
  "stats_failed = \<lparr>requestType = ''GetStats'', requestId = ''r2'',
     requestStatus = \<lparr>result = False, code = 207, comment = None\<rparr>,
     responseData = Undefined\<rparr>"

definition stats_refused :: response where
  "stats_refused = \<lparr>requestType = ''GetStats'', requestId = ''r2'',
     requestStatus = \<lparr>result = False, code = 207, comment = Some ''OBS is not ready''\<rparr>,
     responseData = Undefined\<rparr>"

definition two_calls :: "(string \<times> string \<times> jsval) list" where
  "two_calls = [(''r1'', ''GetVersion'', Undefined), (''r2'', ''GetStats'', Undefined)]"

definition two_pending :: obs where
  "two_pending = snd (calls two_calls established)"

fun quiet_cb :: "callback \<Rightarrow> bool" where
  "quiet_cb (UserFn _) = True"
| "quiet_cb (ErrorCb _) = True"
| "quiet_cb _ = False"

definition quiet :: "listener \<Rightarrow> bool" where
  "quiet l = quiet_cb (callback_of l)"

definition live :: "'a option list \<Rightarrow> 'a list" where
  "live es = List.map_filter id es"

definition tomb :: "listener \<Rightarrow> listener option \<Rightarrow> listener option" where
  "tomb l e = (if e = Some l then None else e)"

definition quiet_step :: "string \<Rightarrow> ev_data \<Rightarrow> listener \<Rightarrow> obs \<Rightarrow> obs" where
  "quiet_step event x l s = caught event (run_callback (callback_of l) x (unwrap event l s))"

fun quiet_run :: "string \<Rightarrow> ev_data \<Rightarrow> listener option list \<Rightarrow> obs \<Rightarrow> obs" where
  "quiet_run event x [] s = s"
| "quiet_run event x (None # es) s = quiet_run event x es s"
| "quiet_run event x (Some l # es) s = quiet_run event x es (quiet_step event x l s)"

definition quiet_set :: "obs \<Rightarrow> string \<Rightarrow> bool" where
  "quiet_set s event \<longleftrightarrow>
     (case listeners s event of
        None \<Rightarrow> True
      | Some r \<Rightarrow> (\<forall>l. Some l \<in> set (sets s r) \<longrightarrow> quiet l) \<and> distinct (live (sets s r)))"

definition user_set :: "obs \<Rightarrow> string \<Rightarrow> bool" where
  "user_set s event \<longleftrightarrow>
     (case listeners s event of
        None \<Rightarrow> True
      | Some r \<Rightarrow>
          (\<forall>l. Some l \<in> set (sets s r) \<longrightarrow> (\<exists>n. callback_of l = UserFn n)) \<and>
          distinct (live (sets s r)))"

fun user_fns :: "listener list \<Rightarrow> nat list" where
  "user_fns [] = []"
| "user_fns (l # ls) = (case callback_of l of UserFn n \<Rightarrow> n # user_fns ls | _ \<Rightarrow> user_fns ls)"

fun error_cbs :: "listener list \<Rightarrow> nat list" where
  "error_cbs [] = []"
| "error_cbs (l # ls) = (case callback_of l of ErrorCb c \<Rightarrow> c # error_cbs ls | _ \<Rightarrow> error_cbs ls)"

definition thrown :: "obs \<Rightarrow> string \<Rightarrow> ev_data \<Rightarrow> nat list \<Rightarrow> (string \<times> jserror) list" where
  "thrown s event x ns =
     concat (map (\<lambda>n. case user_throws s n x of None \<Rightarrow> [] | Some e \<Rightarrow> [(event, e)]) ns)"

definition listening :: "obs \<Rightarrow> string \<Rightarrow> listener list" where
  "listening s event = (case listeners s event of None \<Rightarrow> [] | Some r \<Rightarrow> live (sets s r))"

definition core where
  "core s = (ws s, rpcVersion s, isConnected s, isIdentified s, pendingRequests s,
     eventSubscriptions s, logger s, reconnectTimer s, reconnectDelay s, maxReconnectDelay s,
     shouldReconnect s, sent s, closes s, promises s, wrappers s, logged s, user_throws s,
     awaiting_auth s, next_set s)"

definition busy :: obs where
  "busy = snd (calls two_calls observed)"



text \<open>
  What a response stands for, for the caller (used in the proofs; the statements of
  the claims spell it out).
\<close>

definition request_error :: "response \<Rightarrow> jserror" where
  "request_error r =
     OBSRequestError (JNum (code (requestStatus r)))
       (JStr (case comment (requestStatus r) of
                None \<Rightarrow> ''Unknown error''
              | Some c \<Rightarrow> if c = [] then ''Unknown error'' else c))
       (JStr (requestType r))"

definition response_outcome :: "response \<Rightarrow> outcome" where
  "response_outcome r =
     (if result (requestStatus r) then Resolved (responseData r) else Rejected (request_error r))"

definition respond :: "obs \<Rightarrow> response \<Rightarrow> obs" where
  "respond s r = snd (handleRequestResponse (JSON_of (RequestResponse r)) s)"



text \<open>
  A first connection attempt with a password, whose socket closes before any Hello
  (the server is not there); and a second attempt without a password, its socket open.
\<close>

definition abandoned :: obs where
  "abandoned = the (handleClose 1006 [] (snd (connect None (Some ''testpassword'') fresh)))"

definition retried :: obs where
  "retried = open_event (snd (connect None None abandoned))"

section \<open>The example states\<close>

lemmas value_defs = read_def nullish_def wire_def entry_def optional_def status_value_def
  response_properties_def

lemmas run_defs = fresh_def OBSWebSocket_def connect_def new_promise_def log_def once_def on_def
  open_event_def onOpen_def handleMessage_def dispatch_def parse_failed_def handleEvent_def
  example_parse_def example_challenge_def emit_def value_defs
  for_of.simps Let_def off_def caught_def identify_def given_def identify_executor_def
  send_or_reject_def send_def OPEN_def CONNECTING_def resolve_def reject_def
  console_error_listener_def EventSubscription_All_def

lemma established_eq:
  "established =
     \<lparr>listeners = [''obs:error'' \<mapsto> 2],
      sets = (\<lambda>_. [])(0 := [None], 2 := [Some (OnceWrapper 2 (ErrorCb 0))], 1 := [None]),
      next_set = 3,
      ws = Some \<lparr>url = ''ws://localhost:4455'', readyState = 1\<rparr>,
      rpcVersion = JNum 1, isConnected = True, isIdentified = True,
      pendingRequests = [], eventSubscriptions = Some 2047,
      logger = \<lambda>_. True, reconnectTimer = None, reconnectDelay = 1000,
      maxReconnectDelay = 30000, shouldReconnect = True,
      sent = [Identify (JNum 1) None (Some 2047)], closes = [],
      settled = [(0, Resolved Undefined)], promises = 1, wrappers = 3,
      logged =
        [(LDebug, ''Connecting to'', [AStr ''ws://localhost:4455'']),
         (LDebug, ''WebSocket connected'', []),
         (LDebug, ''Received message:'', [AVal (JNum 0)]),
         (LDebug, ''Sending message:'', [ANum 1]),
         (LDebug, ''Received message:'', [AVal (JNum 2)])],
      console_error = [],
      user_throws = \<lambda>n x. if n = 0 then Some (Error ''listener failed'') else None,
      invoked = [], awaiting_auth = []\<rparr>"
  by (simp add: established_def run_defs numeral_2_eq_2 numeral_3_eq_3)

lemma observed_eq:
  "observed =
     \<lparr>listeners =
        [''obs:error'' \<mapsto> 2, ''ExitStarted'' \<mapsto> 3, ''ConnectionClosed'' \<mapsto> 4,
         ''obs:reconnect'' \<mapsto> 5],
      sets =
        (\<lambda>_. [])
        (0 := [None], 1 := [None],
         3 := [Some (Fn (UserFn 0)), Some (OnceWrapper 3 (UserFn 1)), Some (Fn (UserFn 2))],
         2 := [Some (OnceWrapper 2 (ErrorCb 0)), Some (Fn (UserFn 3))],
         4 := [Some (Fn (UserFn 4))],
         5 := [Some (Fn (UserFn 5))]),
      next_set = 6,
      ws = Some \<lparr>url = ''ws://localhost:4455'', readyState = 1\<rparr>,
      rpcVersion = JNum 1, isConnected = True, isIdentified = True,
      pendingRequests = [], eventSubscriptions = Some 2047,
      logger = \<lambda>_. True, reconnectTimer = None, reconnectDelay = 1000,
      maxReconnectDelay = 30000, shouldReconnect = True,
      sent = [Identify (JNum 1) None (Some 2047)], closes = [],
      settled = [(0, Resolved Undefined)], promises = 1, wrappers = 4,
      logged =
        [(LDebug, ''Connecting to'', [AStr ''ws://localhost:4455'']),
         (LDebug, ''WebSocket connected'', []),
         (LDebug, ''Received message:'', [AVal (JNum 0)]),
         (LDebug, ''Sending message:'', [ANum 1]),
         (LDebug, ''Received message:'', [AVal (JNum 2)])],
      console_error = [],
      user_throws = \<lambda>n x. if n = 0 then Some (Error ''listener failed'') else None,
      invoked = [], awaiting_auth = []\<rparr>"
  by (simp add: observed_def established_eq once_def on_def Let_def fun_upd_twist)

lemma ready_established: "ready established"
  by (simp add: ready_def established_eq connected_def OPEN_def)

lemma allocated_established: "allocated established"
  by (simp add: allocated_def established_eq)

lemma ready_observed: "ready observed"
  by (simp add: ready_def observed_eq connected_def OPEN_def)

lemma allocated_observed: "allocated observed"
  by (simp add: allocated_def observed_eq)


section \<open>Request correlation\<close>

lemma promise_state_append:
  "promise_state (s\<lparr>settled := settled s @ [(p, out)]\<rparr>) q =
     (if q = p \<and> promise_state s q = None then Some out else promise_state s q)"
  by (auto simp: promise_state_def map_add_def split: option.splits)

lemma promise_state_log [simp]: "promise_state (log l m a s) q = promise_state s q"
  by (simp add: promise_state_def log_def)

lemma pending_log [simp]: "pendingRequests (log l m a s) = pendingRequests s"
  by (simp add: log_def)

lemma settled_log [simp]: "settled (log l m a s) = settled s"
  by (simp add: log_def)

lemma log_fields [simp]:
  "ws (log l m a s) = ws s" "isConnected (log l m a s) = isConnected s"
  "isIdentified (log l m a s) = isIdentified s" "promises (log l m a s) = promises s"
  "sent (log l m a s) = sent s" "listeners (log l m a s) = listeners s"
  "reconnectTimer (log l m a s) = reconnectTimer s" "reconnectDelay (log l m a s) = reconnectDelay s"
  "maxReconnectDelay (log l m a s) = maxReconnectDelay s" "shouldReconnect (log l m a s) = shouldReconnect s"
  "rpcVersion (log l m a s) = rpcVersion s" "invoked (log l m a s) = invoked s"
  "console_error (log l m a s) = console_error s" "user_throws (log l m a s) = user_throws s"
  "wrappers (log l m a s) = wrappers s" "awaiting_auth (log l m a s) = awaiting_auth s"
  "sets (log l m a s) = sets s" "next_set (log l m a s) = next_set s" "closes (log l m a s) = closes s"
  "eventSubscriptions (log l m a s) = eventSubscriptions s" "logger (log l m a s) = logger s"
  by (simp_all add: log_def)

text \<open>The fields the handlers read in the value of a response.\<close>

lemma wire_fields:
  "read (wire n d) k = Inr (field (wire n d) k)" "field (wire n d) ''d'' = JObj d"
  "field (wire n d) ''op'' = JNum n"
  by (simp_all add: wire_def read_def nullish_def)

lemma read_object: "read (JObj properties) k = Inr (field (JObj properties) k)"
  by (simp add: read_def nullish_def)

lemma response_fields:
  "field (JObj (response_properties r)) ''requestId'' = JStr (requestId r)"
  "field (JObj (response_properties r)) ''requestType'' = JStr (requestType r)"
  "field (JObj (response_properties r)) ''requestStatus'' = status_value (requestStatus r)"
  "field (JObj (response_properties r)) ''responseData'' = responseData r"
  by (simp_all add: response_properties_def entry_def)

lemma status_fields:
  "field (status_value st) ''result'' = JBool (result st)"
  "field (status_value st) ''code'' = JNum (code st)"
  "field (status_value st) ''comment'' = (case comment st of None \<Rightarrow> Undefined | Some c \<Rightarrow> JStr c)"
  "read (status_value st) k = Inr (field (status_value st) k)"
  by (simp_all add: status_value_def optional_def read_object split: option.splits)

lemma comment_of_status:
  "comment_or_unknown (case c of None \<Rightarrow> Undefined | Some x \<Rightarrow> JStr x) =
     JStr (case c of None \<Rightarrow> ''Unknown error'' | Some x \<Rightarrow> if x = [] then ''Unknown error'' else x)"
  by (simp add: comment_or_unknown_def split: option.splits)

lemma new_error_of_strings:
  "new_OBSRequestError (JNum c) (JStr m) (JStr t) = Inr (OBSRequestError (JNum c) (JStr m) (JStr t))"
  by (simp add: new_OBSRequestError_def)

lemma map_callback_response:
  "map_callback (JObj (response_properties r)) =
     (if result (requestStatus r) then Inr (responseData r) else Inl (request_error r))"
  by (simp add: map_callback_def read_object response_fields status_fields
      comment_of_status new_error_of_strings request_error_def del: field.simps)

lemma hrr_known:
  "map_of (pendingRequests s) (requestId d) = Some p \<Longrightarrow>
   handleRequestResponse (JSON_of (RequestResponse d)) s =
     (None, s\<lparr>pendingRequests := AList.delete (requestId d) (pendingRequests s),
              settled := settled s @ [(p, response_outcome d)]\<rparr>)"
  by (simp add: handleRequestResponse_def wire_fields read_object response_fields
      status_fields comment_of_status new_error_of_strings Map_get_def Map_delete_def
      response_outcome_def request_error_def resolve_def reject_def Let_def del: field.simps)

lemma hrr_unknown:
  "map_of (pendingRequests s) (requestId d) = None \<Longrightarrow>
   handleRequestResponse (JSON_of (RequestResponse d)) s =
     (None, log LWarn ''Received response for unknown request:'' [AVal (JStr (requestId d))] s)"
  by (simp add: handleRequestResponse_def wire_fields read_object response_fields
      Map_get_def del: field.simps)

lemma respond_known:
  "map_of (pendingRequests s) (requestId d) = Some p \<Longrightarrow>
   respond s d =
     s\<lparr>pendingRequests := AList.delete (requestId d) (pendingRequests s),
       settled := settled s @ [(p, response_outcome d)]\<rparr>"
  by (simp add: respond_def hrr_known del: JSON_of.simps)

lemma respond_unknown:
  "map_of (pendingRequests s) (requestId d) = None \<Longrightarrow>
   respond s d = log LWarn ''Received response for unknown request:'' [AVal (JStr (requestId d))] s"
  by (simp add: respond_def hrr_unknown del: JSON_of.simps)

lemma respond_keeps_settled:
  "promise_state s p = Some out \<Longrightarrow> promise_state (respond s d) p = Some out"
  by (cases "map_of (pendingRequests s) (requestId d)")
     (simp_all add: respond_unknown respond_known promise_state_def map_add_def)

lemma fold_keeps_settled:
  "promise_state s p = Some out \<Longrightarrow> promise_state (foldl respond s ds) p = Some out"
  by (induction ds arbitrary: s) (simp_all add: respond_keeps_settled)

text \<open>
  The promise under \<open>rid\<close>, when no other key holds it, is settled by the first
  response that carries \<open>rid\<close>, and by no other.
\<close>

lemma respond_fold:
  assumes "map_of (pendingRequests s) rid = Some p" and "promise_state s p = None"
    and "\<forall>k. map_of (pendingRequests s) k = Some p \<longrightarrow> k = rid"
  shows "promise_state (foldl respond s ds) p =
           map_option response_outcome (find (\<lambda>d. requestId d = rid) ds)"
  using assms
proof (induction ds arbitrary: s)
  case Nil
  show ?case using Nil.prems(2) by simp
next
  case (Cons d ds)
  show ?case
  proof (cases "requestId d = rid")
    case True
    have m: "map_of (pendingRequests s) (requestId d) = Some p"
      unfolding True by (rule Cons.prems(1))
    have "promise_state (respond s d) p = Some (response_outcome d)"
      unfolding respond_known [OF m] using Cons.prems(2)
      by (simp add: promise_state_def map_add_def)
    then have "promise_state (foldl respond (respond s d) ds) p = Some (response_outcome d)"
      by (rule fold_keeps_settled)
    then show ?thesis using True by simp
  next
    case False
    have "promise_state (foldl respond (respond s d) ds) p =
            map_option response_outcome (find (\<lambda>d. requestId d = rid) ds)"
    proof (cases "map_of (pendingRequests s) (requestId d)")
      case None
      note u = respond_unknown [OF None]
      show ?thesis
      proof (rule Cons.IH)
        show "map_of (pendingRequests (respond s d)) rid = Some p"
          unfolding u using Cons.prems(1) by simp
        show "promise_state (respond s d) p = None"
          unfolding u using Cons.prems(2) by simp
        show "\<forall>k. map_of (pendingRequests (respond s d)) k = Some p \<longrightarrow> k = rid"
          unfolding u pending_log by (rule Cons.prems(3))
      qed
    next
      case (Some q)
      note k = respond_known [OF Some]
      have qp: "q \<noteq> p"
      proof
        assume "q = p"
        with Some Cons.prems(3) have "requestId d = rid" by blast
        with False show False ..
      qed
      have pend: "pendingRequests (respond s d) = AList.delete (requestId d) (pendingRequests s)"
        unfolding k by simp
      show ?thesis
      proof (rule Cons.IH)
        show "map_of (pendingRequests (respond s d)) rid = Some p"
          unfolding pend delete_conv' using Cons.prems(1) False by simp
        show "promise_state (respond s d) p = None"
          unfolding k using Cons.prems(2) qp by (simp add: promise_state_def map_add_def)
        show "\<forall>k. map_of (pendingRequests (respond s d)) k = Some p \<longrightarrow> k = rid"
        proof (intro allI impI)
          fix k assume "map_of (pendingRequests (respond s d)) k = Some p"
          then have "map_of (pendingRequests s) k = Some p"
            unfolding pend delete_conv' by (simp split: if_splits)
          with Cons.prems(3) show "k = rid" by blast
        qed
      qed
    qed
    then show ?thesis using False by simp
  qed
qed

lemma call_ready:
  assumes "ready s"
  shows "call rid rtype requestData s =
    (promises s,
     (log LDebug ''Sending message:'' [ANum 6]
        (s\<lparr>promises := Suc (promises s),
           pendingRequests := AList.update rid (promises s) (pendingRequests s)\<rparr>))
      \<lparr>sent := sent s @ [Request rtype rid requestData]\<rparr>)"
  using assms
  by (auto simp: call_def ready_def new_promise_def connected_def send_def Let_def)

lemma callBatch_ready:
  assumes "ready s"
  shows "callBatch rid requests hof et s =
    (promises s,
     (log LDebug ''Sending message:'' [ANum 8]
        (s\<lparr>promises := Suc (promises s),
           pendingRequests := AList.update rid (promises s) (pendingRequests s)\<rparr>))
      \<lparr>sent := sent s @ [RequestBatch rid hof et requests]\<rparr>)"
  using assms
  by (auto simp: callBatch_def ready_def new_promise_def connected_def send_def Let_def)

lemma call_step:
  assumes "ready s" and "call rid rtype requestData s = (p, s1)"
  shows "ready s1" "p = promises s" "promises s1 = Suc (promises s)" "settled s1 = settled s"
    "map_of (pendingRequests s1) = (map_of (pendingRequests s))(rid \<mapsto> p)"
proof -
  from assms(2) call_ready [OF assms(1), of rid rtype requestData]
  have p: "p = promises s" and s1: "s1 = (log LDebug ''Sending message:'' [ANum 6]
        (s\<lparr>promises := Suc (promises s),
           pendingRequests := AList.update rid (promises s) (pendingRequests s)\<rparr>))
      \<lparr>sent := sent s @ [Request rtype rid requestData]\<rparr>"
    by auto
  show "p = promises s" by (rule p)
  show "ready s1" using assms(1) by (simp add: s1 ready_def connected_def)
  show "promises s1 = Suc (promises s)" "settled s1 = settled s" by (simp_all add: s1)
  show "map_of (pendingRequests s1) = (map_of (pendingRequests s))(rid \<mapsto> p)"
    by (simp add: s1 p update_conv')
qed

lemma calls_spec:
  assumes "ready s" and "distinct (map fst cs)" and "calls cs s = (ps, s1)"
  shows "ps = map (\<lambda>j. promises s + j) [0..<length cs] \<and> settled s1 = settled s \<and>
         (\<forall>j < length cs. map_of (pendingRequests s1) (fst (cs ! j)) = Some (promises s + j)) \<and>
         (\<forall>k. k \<notin> fst ` set cs \<longrightarrow> map_of (pendingRequests s1) k = map_of (pendingRequests s) k)"
  using assms
proof (induction cs arbitrary: s ps s1)
  case Nil
  then show ?case by simp
next
  case (Cons c cs)
  obtain rid rtype requestData where c: "c = (rid, rtype, requestData)" by (cases c)
  obtain p t where ct: "call rid rtype requestData s = (p, t)" by force
  obtain qs u where cu: "calls cs t = (qs, u)" by force
  note step = call_step [OF Cons.prems(1) ct]
  have ps: "ps = p # qs" and s1: "s1 = u"
    using Cons.prems(3) by (simp_all add: c ct cu)
  have d: "distinct (map fst cs)" and fresh: "rid \<notin> fst ` set cs"
    using Cons.prems(2) by (simp_all add: c)
  from Cons.IH [OF step(1) d cu]
  have ih: "qs = map (\<lambda>j. promises t + j) [0..<length cs]" "settled u = settled t"
    "\<forall>j < length cs. map_of (pendingRequests u) (fst (cs ! j)) = Some (promises t + j)"
    "\<forall>k. k \<notin> fst ` set cs \<longrightarrow> map_of (pendingRequests u) k = map_of (pendingRequests t) k"
    by simp_all
  have 1: "ps = map (\<lambda>j. promises s + j) [0..<length (c # cs)]"
    by (simp add: ps ih(1) step(2,3) map_upt_Suc del: upt_Suc)
  have 2: "settled s1 = settled s" by (simp add: s1 ih(2) step(4))
  have head: "map_of (pendingRequests u) rid = Some (promises s)"
    using ih(4) fresh by (simp add: step(5) step(2))
  have 3: "\<forall>j < length (c # cs). map_of (pendingRequests s1) (fst ((c # cs) ! j)) = Some (promises s + j)"
    using ih(3) head by (auto simp: s1 c step(3) nth_Cons split: nat.splits)
  have 4: "\<forall>k. k \<notin> fst ` set (c # cs) \<longrightarrow> map_of (pendingRequests s1) k = map_of (pendingRequests s) k"
    using ih(4) by (auto simp: s1 c step(5))
  from 1 2 3 4 show ?case by blast
qed

lemma unallocated:
  assumes "allocated s" and "promises s \<le> q"
  shows "promise_state s q = None" "map_of (pendingRequests s) k \<noteq> Some q"
proof -
  have "q \<notin> fst ` set (settled s)"
  proof
    assume "q \<in> fst ` set (settled s)"
    then have "q < promises s" using assms(1) unfolding allocated_def by blast
    with assms(2) show False by simp
  qed
  then show "promise_state s q = None" by (simp add: promise_state_def map_of_eq_None_iff)
  show "map_of (pendingRequests s) k \<noteq> Some q"
  proof
    assume "map_of (pendingRequests s) k = Some q"
    then have "(k, q) \<in> set (pendingRequests s)" by (rule map_of_SomeD)
    then have "q \<in> snd ` set (pendingRequests s)" by force
    then have "q < promises s" using assms(1) unfolding allocated_def by blast
    with assms(2) show False by simp
  qed
qed

text \<open>
  Claim C3. Any number of calls are issued with distinct identifiers on a session that
  accepts calls; then RequestResponse frames arrive in any order and number. No frame
  makes the handler throw. The promise of the i-th call is pending until the first
  response that carries its own identifier, and from then on holds the outcome of that
  response: resolved with its \<open>responseData\<close> (\<open>Undefined\<close> when there is none) when
  \<open>requestStatus.result\<close> is true, rejected with an OBSRequestError of its code, its
  comment (\<open>Unknown error\<close> when there is none or it is empty) and its requestType when
  it is false. Responses with other identifiers never change it.
\<close>

theorem call_correlation:
  assumes "ready s" and "allocated s" and "distinct (map fst cs)"
    and "calls cs s = (ps, s1)" and "i < length cs"
  shows "fst (handleRequestResponse (JSON_of (RequestResponse d)) t) = None \<and>
         promise_state
           (foldl (\<lambda>t d. snd (handleRequestResponse (JSON_of (RequestResponse d)) t)) s1 ds)
           (ps ! i) =
           map_option
             (\<lambda>d. if result (requestStatus d) then Resolved (responseData d)
                  else Rejected
                         (OBSRequestError (JNum (code (requestStatus d)))
                            (JStr (case comment (requestStatus d) of
                                     None \<Rightarrow> ''Unknown error''
                                   | Some c \<Rightarrow> if c = [] then ''Unknown error'' else c))
                            (JStr (requestType d))))
             (find (\<lambda>d. requestId d = fst (cs ! i)) ds)"
proof -
  have 1: "fst (handleRequestResponse (JSON_of (RequestResponse d)) t) = None"
    by (cases "map_of (pendingRequests t) (requestId d)")
       (simp_all add: hrr_known hrr_unknown del: JSON_of.simps)
  from calls_spec [OF assms(1,3,4)] assms(5)
  have ps: "ps ! i = promises s + i" and st: "settled s1 = settled s"
    and m: "map_of (pendingRequests s1) (fst (cs ! i)) = Some (promises s + i)"
    and others: "\<forall>j < length cs. map_of (pendingRequests s1) (fst (cs ! j)) = Some (promises s + j)"
    and old: "\<forall>k. k \<notin> fst ` set cs \<longrightarrow> map_of (pendingRequests s1) k = map_of (pendingRequests s) k"
    by simp_all
  have none: "promise_state s1 (promises s + i) = None"
    using unallocated(1) [OF assms(2), of "promises s + i"] by (simp add: promise_state_def st)
  have only: "\<forall>k. map_of (pendingRequests s1) k = Some (promises s + i) \<longrightarrow> k = fst (cs ! i)"
  proof (intro allI impI)
    fix k assume k: "map_of (pendingRequests s1) k = Some (promises s + i)"
    show "k = fst (cs ! i)"
    proof (cases "k \<in> fst ` set cs")
      case True
      then obtain j where j: "j < length cs" "k = fst (cs ! j)"
        by (auto simp: in_set_conv_nth)
      with others k have "j = i" by simp
      then show ?thesis using j(2) by simp
    next
      case False
      with old k have "map_of (pendingRequests s) k = Some (promises s + i)" by simp
      with unallocated(2) [OF assms(2), of "promises s + i" k] show ?thesis by simp
    qed
  qed
  have r: "(\<lambda>t d. snd (handleRequestResponse (JSON_of (RequestResponse d)) t)) = respond"
    by (intro ext) (simp add: respond_def)
  have o: "response_outcome =
      (\<lambda>d. if result (requestStatus d) then Resolved (responseData d)
           else Rejected
                  (OBSRequestError (JNum (code (requestStatus d)))
                     (JStr (case comment (requestStatus d) of
                              None \<Rightarrow> ''Unknown error''
                            | Some c \<Rightarrow> if c = [] then ''Unknown error'' else c))
                     (JStr (requestType d))))"
    by (rule ext) (simp add: response_outcome_def request_error_def)
  from respond_fold [OF m none only, of ds]
  have "promise_state (foldl respond s1 ds) (ps ! i) =
          map_option response_outcome (find (\<lambda>d. requestId d = fst (cs ! i)) ds)"
    unfolding ps .
  then have 2: "promise_state
           (foldl (\<lambda>t d. snd (handleRequestResponse (JSON_of (RequestResponse d)) t)) s1 ds)
           (ps ! i) =
           map_option
             (\<lambda>d. if result (requestStatus d) then Resolved (responseData d)
                  else Rejected
                         (OBSRequestError (JNum (code (requestStatus d)))
                            (JStr (case comment (requestStatus d) of
                                     None \<Rightarrow> ''Unknown error''
                                   | Some c \<Rightarrow> if c = [] then ''Unknown error'' else c))
                            (JStr (requestType d))))
             (find (\<lambda>d. requestId d = fst (cs ! i)) ds)"
    unfolding r [symmetric] o .
  from 1 2 show ?thesis by (rule conjI)
qed

lemma map_results_find:
  "map_results (map (JObj \<circ> response_properties) rs) =
     (case find (\<lambda>r. \<not> result (requestStatus r)) rs of
        None \<Rightarrow> Inr (map responseData rs)
      | Some r \<Rightarrow> Inl (request_error r))"
  by (induction rs) (auto simp: map_callback_response split: option.splits)

lemma hbr_known:
  "map_of (pendingRequests s) rid = Some p \<Longrightarrow>
   handleBatchResponse (JSON_of (RequestBatchResponse rid results)) s =
     (None,
      s\<lparr>pendingRequests := AList.delete rid (pendingRequests s),
        settled := settled s @
          [(p, case find (\<lambda>r. \<not> result (requestStatus r)) results of
                 None \<Rightarrow> Resolved (JArr (map responseData results))
               | Some r \<Rightarrow> Rejected (request_error r))]\<rparr>)"
  by (simp add: handleBatchResponse_def wire_fields read_object Map_get_def Map_delete_def
      results_map_def map_results_find resolve_def reject_def Let_def split: option.splits)

lemma hbr_unknown:
  "map_of (pendingRequests s) rid = None \<Longrightarrow>
   handleBatchResponse (JSON_of (RequestBatchResponse rid results)) s =
     (None, log LWarn ''Received batch response for unknown request:'' [AVal (JStr rid)] s)"
  by (simp add: handleBatchResponse_def wire_fields read_object Map_get_def)

text \<open>
  Claim C2. After \<open>callBatch\<close> on a session that accepts calls, whatever
  \<open>haltOnFailure\<close> and \<open>executionType\<close> were, the batch waits under its identifier; and
  in every state in which it still waits, the matching RequestBatchResponse does not
  make the handler throw, and resolves the batch with the list of all \<open>responseData\<close>
  in the order of the results when every member succeeded, and otherwise rejects it
  with an OBSRequestError of the code, the comment (\<open>Unknown error\<close> when there is none
  or it is empty) and the requestType of the first failed member in that order: never
  a partial list.
\<close>

theorem batch_all_or_first_failure:
  assumes "ready s" and "allocated s"
    and "callBatch rid requests haltOnFailure executionType s = (p, s1)"
  shows "map_of (pendingRequests s1) rid = Some p \<and> promise_state s1 p = None \<and>
    (\<forall>t. map_of (pendingRequests t) rid = Some p \<and> promise_state t p = None \<longrightarrow>
       fst (handleBatchResponse (JSON_of (RequestBatchResponse rid results)) t) = None \<and>
       promise_state (snd (handleBatchResponse (JSON_of (RequestBatchResponse rid results)) t)) p =
         Some (case find (\<lambda>r. \<not> result (requestStatus r)) results of
                 None \<Rightarrow> Resolved (JArr (map responseData results))
               | Some r \<Rightarrow>
                   Rejected
                     (OBSRequestError (JNum (code (requestStatus r)))
                        (JStr (case comment (requestStatus r) of
                                 None \<Rightarrow> ''Unknown error''
                               | Some c \<Rightarrow> if c = [] then ''Unknown error'' else c))
                        (JStr (requestType r)))))"
proof -
  from assms(3) callBatch_ready [OF assms(1), of rid requests haltOnFailure executionType]
  have p: "p = promises s" and s1: "s1 = (log LDebug ''Sending message:'' [ANum 8]
        (s\<lparr>promises := Suc (promises s),
           pendingRequests := AList.update rid (promises s) (pendingRequests s)\<rparr>))
      \<lparr>sent := sent s @ [RequestBatch rid haltOnFailure executionType requests]\<rparr>"
    by auto
  have "promise_state s p = None" unfolding p by (rule unallocated(1) [OF assms(2)]) simp
  then have a: "promise_state s1 p = None" by (simp add: s1 promise_state_def)
  have b: "map_of (pendingRequests s1) rid = Some p"
    by (simp add: s1 p update_conv')
  have c: "fst (handleBatchResponse (JSON_of (RequestBatchResponse rid results)) t) = None \<and>
       promise_state (snd (handleBatchResponse (JSON_of (RequestBatchResponse rid results)) t)) p =
         Some (case find (\<lambda>r. \<not> result (requestStatus r)) results of
                 None \<Rightarrow> Resolved (JArr (map responseData results))
               | Some r \<Rightarrow>
                   Rejected
                     (OBSRequestError (JNum (code (requestStatus r)))
                        (JStr (case comment (requestStatus r) of
                                 None \<Rightarrow> ''Unknown error''
                               | Some c \<Rightarrow> if c = [] then ''Unknown error'' else c))
                        (JStr (requestType r))))"
    if t: "map_of (pendingRequests t) rid = Some p" "promise_state t p = None" for t
    unfolding hbr_known [OF t(1)] using t(2)
    by (simp add: promise_state_def map_add_def request_error_def split: option.splits)
  from a b c show ?thesis by blast
qed

text \<open>
  Claim C10. A failed response without a comment, or with an empty one, rejects the
  waiting caller with an OBSRequestError whose comment is \<open>Unknown error\<close> and whose
  code and requestType are those of the message; the same holds for the first failed
  member of a batch response.
\<close>

theorem unknown_error_default:
  assumes "\<not> result (requestStatus d)"
    and "comment (requestStatus d) = None \<or> comment (requestStatus d) = Some []"
    and "promise_state s p = None"
  shows "(map_of (pendingRequests s) (requestId d) = Some p \<longrightarrow>
            promise_state (snd (handleRequestResponse (JSON_of (RequestResponse d)) s)) p =
              Some (Rejected (OBSRequestError (JNum (code (requestStatus d)))
                               (JStr ''Unknown error'') (JStr (requestType d))))) \<and>
         (map_of (pendingRequests s) rid = Some p \<and>
            (\<forall>r \<in> set before. result (requestStatus r)) \<longrightarrow>
            promise_state
              (snd (handleBatchResponse (JSON_of (RequestBatchResponse rid (before @ d # rest))) s)) p =
              Some (Rejected (OBSRequestError (JNum (code (requestStatus d)))
                               (JStr ''Unknown error'') (JStr (requestType d)))))"
proof -
  have e: "request_error d =
      OBSRequestError (JNum (code (requestStatus d))) (JStr ''Unknown error'') (JStr (requestType d))"
    using assms(2) by (auto simp: request_error_def)
  have 1: "promise_state (snd (handleRequestResponse (JSON_of (RequestResponse d)) s)) p =
              Some (Rejected (OBSRequestError (JNum (code (requestStatus d)))
                               (JStr ''Unknown error'') (JStr (requestType d))))"
    if m: "map_of (pendingRequests s) (requestId d) = Some p"
    unfolding hrr_known [OF m] using assms(1,3)
    by (simp add: promise_state_def map_add_def response_outcome_def e)
  have 2: "promise_state
              (snd (handleBatchResponse (JSON_of (RequestBatchResponse rid (before @ d # rest))) s)) p =
              Some (Rejected (OBSRequestError (JNum (code (requestStatus d)))
                               (JStr ''Unknown error'') (JStr (requestType d))))"
    if m: "map_of (pendingRequests s) rid = Some p"
      and b: "\<forall>r \<in> set before. result (requestStatus r)"
  proof -
    have "find (\<lambda>r. \<not> result (requestStatus r)) (before @ d # rest) = Some d"
      using b assms(1) by (induction before) auto
    then show ?thesis
      unfolding hbr_known [OF m] using assms(3)
      by (simp add: promise_state_def map_add_def e)
  qed
  from 1 2 show ?thesis by blast
qed

lemma two_calls_run:
  "calls two_calls established =
     ([1, 2], established\<lparr>promises := 3, pendingRequests := [(''r1'', 1), (''r2'', 2)],
        logged := logged established @
          [(LDebug, ''Sending message:'', [ANum 6]), (LDebug, ''Sending message:'', [ANum 6])],
        sent := [Identify (JNum 1) None (Some 2047), Request ''GetVersion'' ''r1'' Undefined,
                 Request ''GetStats'' ''r2'' Undefined]\<rparr>)"
  by (simp add: two_calls_def established_eq call_def new_promise_def connected_def send_def
      log_def OPEN_def Let_def)

lemma two_pending_eq:
  "two_pending = established\<lparr>promises := 3, pendingRequests := [(''r1'', 1), (''r2'', 2)],
        logged := logged established @
          [(LDebug, ''Sending message:'', [ANum 6]), (LDebug, ''Sending message:'', [ANum 6])],
        sent := [Identify (JNum 1) None (Some 2047), Request ''GetVersion'' ''r1'' Undefined,
                 Request ''GetStats'' ''r2'' Undefined]\<rparr>"
  by (simp add: two_pending_def two_calls_run)

text \<open>
  Claim C3 on two calls: a refusal with a comment and a success arrive in the opposite
  order, followed by a second response for the second call.
\<close>

theorem call_correlation_witness:
  "ready established \<and> allocated established \<and> distinct (map fst two_calls) \<and>
   fst (calls two_calls established) = [1, 2] \<and>
   map (promise_state
          (foldl (\<lambda>t d. snd (handleRequestResponse (JSON_of (RequestResponse d)) t))
             (snd (calls two_calls established)) [stats_refused, version_ok, stats_failed]))
     [[1, 2] ! 0, [1, 2] ! 1] =
     [Some (Resolved (JObj [(''obsVersion'', JStr ''28.0.0'')])),
      Some (Rejected (OBSRequestError (JNum 207) (JStr ''OBS is not ready'') (JStr ''GetStats'')))]"
proof -
  have d: "distinct (map fst two_calls)" by (simp add: two_calls_def)
  have c: "calls two_calls established = ([1, 2], snd (calls two_calls established))"
    by (simp add: two_calls_run)
  have l: "0 < length two_calls" "1 < length two_calls" by (simp_all add: two_calls_def)
  note t = call_correlation [OF ready_established allocated_established d c,
      where ds = "[stats_refused, version_ok, stats_failed]"]
  from t [OF l(1)]
  have 0: "promise_state
          (foldl (\<lambda>t d. snd (handleRequestResponse (JSON_of (RequestResponse d)) t))
             (snd (calls two_calls established)) [stats_refused, version_ok, stats_failed])
          ([1, 2] ! 0) = Some (Resolved (JObj [(''obsVersion'', JStr ''28.0.0'')]))"
    by (simp add: two_calls_def stats_refused_def version_ok_def stats_failed_def
        del: JSON_of.simps foldl_Cons)
  from t [OF l(2)]
  have 1: "promise_state
          (foldl (\<lambda>t d. snd (handleRequestResponse (JSON_of (RequestResponse d)) t))
             (snd (calls two_calls established)) [stats_refused, version_ok, stats_failed])
          ([1, 2] ! 1) =
          Some (Rejected (OBSRequestError (JNum 207) (JStr ''OBS is not ready'') (JStr ''GetStats'')))"
    by (simp add: two_calls_def stats_refused_def version_ok_def stats_failed_def
        del: JSON_of.simps foldl_Cons)
  have f: "fst (calls two_calls established) = [1, 2]" by (simp add: two_calls_run)
  from 0 1 show ?thesis
    using ready_established allocated_established d f by (simp only: list.map simp_thms)
qed

text \<open>
  Claim C2 on a batch of two sent with \<open>haltOnFailure\<close> false: the first member
  succeeded, the second was refused with a comment.
\<close>

theorem batch_all_or_first_failure_witness:
  "ready established \<and> allocated established \<and>
   fst (callBatch ''b1'' [(''GetVersion'', ''m1'', Undefined), (''GetStats'', ''m2'', Undefined)]
          (Some False) None established) = 1 \<and>
   promise_state
     (snd (handleBatchResponse (JSON_of (RequestBatchResponse ''b1'' [version_ok, stats_refused]))
        (snd (callBatch ''b1'' [(''GetVersion'', ''m1'', Undefined), (''GetStats'', ''m2'', Undefined)]
               (Some False) None established)))) 1 =
     Some (Rejected (OBSRequestError (JNum 207) (JStr ''OBS is not ready'') (JStr ''GetStats'')))"
proof -
  let ?r = "callBatch ''b1'' [(''GetVersion'', ''m1'', Undefined), (''GetStats'', ''m2'', Undefined)]
              (Some False) None established"
  have f: "fst ?r = 1"
    by (simp add: callBatch_ready [OF ready_established]) (simp add: established_eq)
  then have c: "?r = (1, snd ?r)" by (metis prod.collapse)
  from batch_all_or_first_failure [OF ready_established allocated_established c,
      of "[version_ok, stats_refused]"]
  have "promise_state
     (snd (handleBatchResponse (JSON_of (RequestBatchResponse ''b1'' [version_ok, stats_refused]))
        (snd ?r))) 1 =
     Some (Rejected (OBSRequestError (JNum 207) (JStr ''OBS is not ready'') (JStr ''GetStats'')))"
    by (simp add: version_ok_def stats_refused_def del: JSON_of.simps)
  then show ?thesis using ready_established allocated_established f by simp
qed

text \<open>
  Claim C10 on the two calls under way: a failure without comment as a response, and
  as the second member of a batch response.
\<close>

theorem unknown_error_default_witness:
  "\<not> result (requestStatus stats_failed) \<and> comment (requestStatus stats_failed) = None \<and>
   promise_state two_pending 2 = None \<and>
   map_of (pendingRequests two_pending) (requestId stats_failed) = Some 2 \<and>
   promise_state (snd (handleRequestResponse (JSON_of (RequestResponse stats_failed)) two_pending)) 2 =
     Some (Rejected (OBSRequestError (JNum 207) (JStr ''Unknown error'') (JStr ''GetStats''))) \<and>
   map_of (pendingRequests two_pending) ''r1'' = Some 1 \<and>
   promise_state
     (snd (handleBatchResponse
             (JSON_of (RequestBatchResponse ''r1'' ([version_ok] @ stats_failed # []))) two_pending)) 1 =
     Some (Rejected (OBSRequestError (JNum 207) (JStr ''Unknown error'') (JStr ''GetStats'')))"
proof -
  have a: "\<not> result (requestStatus stats_failed)"
    "comment (requestStatus stats_failed) = None \<or> comment (requestStatus stats_failed) = Some []"
    by (simp_all add: stats_failed_def)
  have p2: "promise_state two_pending 2 = None" and p1: "promise_state two_pending 1 = None"
    by (simp_all add: two_pending_eq established_eq promise_state_def)
  have m: "map_of (pendingRequests two_pending) (requestId stats_failed) = Some 2"
    "map_of (pendingRequests two_pending) ''r1'' = Some 1"
    by (simp_all add: two_pending_eq stats_failed_def)
  have b: "\<forall>r \<in> set [version_ok]. result (requestStatus r)" by (simp add: version_ok_def)
  from unknown_error_default [OF a p2, where rid = "''r1''" and before = "[version_ok]" and rest = "[]"] m(1)
  have 1: "promise_state (snd (handleRequestResponse (JSON_of (RequestResponse stats_failed)) two_pending)) 2 =
     Some (Rejected (OBSRequestError (JNum 207) (JStr ''Unknown error'') (JStr ''GetStats'')))"
    by (simp add: stats_failed_def del: JSON_of.simps)
  from unknown_error_default [OF a p1, where rid = "''r1''" and before = "[version_ok]" and rest = "[]"] m(2) b
  have 2: "promise_state
     (snd (handleBatchResponse
             (JSON_of (RequestBatchResponse ''r1'' ([version_ok] @ stats_failed # []))) two_pending)) 1 =
     Some (Rejected (OBSRequestError (JNum 207) (JStr ''Unknown error'') (JStr ''GetStats'')))"
    by (simp add: stats_failed_def del: JSON_of.simps)
  show ?thesis using a(1) p2 m 1 2 by (simp add: stats_failed_def del: JSON_of.simps)
qed

text \<open>
  Claim C8. The claim does not hold of the code where \<open>send\<close> throws. \<open>call\<close> puts
  the entry into the map and then sends; between the moment the socket leaves the state
  \<open>OPEN\<close> and the close event, both flags are still set, \<open>call\<close> passes its check, and
  the exception of \<open>send\<close> rejects the promise while the entry stays in the map. The
  close event then calls the \<open>reject\<close> of that entry a second time. Here: the session
  \<open>established\<close>, its socket closing; a call; the close event.
\<close>

theorem entry_left_after_failed_send:
  "connected (closing_event established) \<and>
   fst (call ''r9'' ''GetVersion'' Undefined (closing_event established)) = 1 \<and>
   pendingRequests (snd (call ''r9'' ''GetVersion'' Undefined (closing_event established))) =
     [(''r9'', 1)] \<and>
   promise_state (snd (call ''r9'' ''GetVersion'' Undefined (closing_event established))) 1 =
     Some (Rejected (Error ''WebSocket is not connected'')) \<and>
   map_option settled
     (handleClose 1006 [] (snd (call ''r9'' ''GetVersion'' Undefined (closing_event established)))) =
     Some [(0, Resolved Undefined), (1, Rejected (Error ''WebSocket is not connected'')),
           (1, Rejected (Error ''Connection closed''))]"
  by (simp add: closing_event_def established_eq call_def new_promise_def connected_def send_def
      OPEN_def CLOSING_def reject_def promise_state_def handleClose_def reject_all_def log_def
      emit_def scheduleReconnect_def clearTimeout_def Let_def)

section \<open>The authentication string of the literals of the specification\<close>

declare blocks.simps [simp del]

lemma replicate_numeral_Cons: "replicate (numeral n) a = a # replicate (pred_numeral n) a"
  unfolding numeral_eq_Suc by simp

lemma encode_secret:
  "TextEncoder_encode (''testpassword'' @ ''lM1GncleQOaCu9lT1yeUZhFYnqhsLLP1G5lAGo3ixaI='') =
    [116, 101, 115, 116, 112, 97, 115, 115, 119, 111, 114, 100,
     108, 77, 49, 71, 110, 99, 108, 101, 81, 79, 97, 67,
     117, 57, 108, 84, 49, 121, 101, 85, 90, 104, 70, 89,
     110, 113, 104, 115, 76, 76, 80, 49, 71, 53, 108, 65,
     71, 111, 51, 105, 120, 97, 73, 61]"
  by (simp add: TextEncoder_encode_def)

lemma pad_secret:
  "pad
    [116, 101, 115, 116, 112, 97, 115, 115, 119, 111, 114, 100,
     108, 77, 49, 71, 110, 99, 108, 101, 81, 79, 97, 67,
     117, 57, 108, 84, 49, 121, 101, 85, 90, 104, 70, 89,
     110, 113, 104, 115, 76, 76, 80, 49, 71, 53, 108, 65,
     71, 111, 51, 105, 120, 97, 73, 61] =
    [116, 101, 115, 116, 112, 97, 115, 115, 119, 111, 114, 100,
     108, 77, 49, 71, 110, 99, 108, 101, 81, 79, 97, 67,
     117, 57, 108, 84, 49, 121, 101, 85, 90, 104, 70, 89,
     110, 113, 104, 115, 76, 76, 80, 49, 71, 53, 108, 65,
     71, 111, 51, 105, 120, 97, 73, 61, 128, 0, 0, 0,
     0, 0, 0, 0, 0, 0, 0, 0, 0, 0, 0, 0,
     0, 0, 0, 0, 0, 0, 0, 0, 0, 0, 0, 0,
     0, 0, 0, 0, 0, 0, 0, 0, 0, 0, 0, 0,
     0, 0, 0, 0, 0, 0, 0, 0, 0, 0, 0, 0,
     0, 0, 0, 0, 0, 0, 0, 0, 0, 0, 0, 0,
     0, 0, 0, 0, 0, 0, 1, 192]"
  by (simp add: pad_def be64_def be32_def replicate_numeral_Cons)

lemma blocks_secret:
  "blocks
    [116, 101, 115, 116, 112, 97, 115, 115, 119, 111, 114, 100,
     108, 77, 49, 71, 110, 99, 108, 101, 81, 79, 97, 67,
     117, 57, 108, 84, 49, 121, 101, 85, 90, 104, 70, 89,
     110, 113, 104, 115, 76, 76, 80, 49, 71, 53, 108, 65,
     71, 111, 51, 105, 120, 97, 73, 61, 128, 0, 0, 0,
     0, 0, 0, 0, 0, 0, 0, 0, 0, 0, 0, 0,
     0, 0, 0, 0, 0, 0, 0, 0, 0, 0, 0, 0,
     0, 0, 0, 0, 0, 0, 0, 0, 0, 0, 0, 0,
     0, 0, 0, 0, 0, 0, 0, 0, 0, 0, 0, 0,
     0, 0, 0, 0, 0, 0, 0, 0, 0, 0, 0, 0,
     0, 0, 0, 0, 0, 0, 1, 192] =
    [[116, 101, 115, 116, 112, 97, 115, 115, 119, 111, 114, 100,
      108, 77, 49, 71, 110, 99, 108, 101, 81, 79, 97, 67,
      117, 57, 108, 84, 49, 121, 101, 85, 90, 104, 70, 89,
      110, 113, 104, 115, 76, 76, 80, 49, 71, 53, 108, 65,
      71, 111, 51, 105, 120, 97, 73, 61, 128, 0, 0, 0,
      0, 0, 0, 0],
     [0, 0, 0, 0, 0, 0, 0, 0, 0, 0, 0, 0,
      0, 0, 0, 0, 0, 0, 0, 0, 0, 0, 0, 0,
      0, 0, 0, 0, 0, 0, 0, 0, 0, 0, 0, 0,
      0, 0, 0, 0, 0, 0, 0, 0, 0, 0, 0, 0,
      0, 0, 0, 0, 0, 0, 0, 0, 0, 0, 0, 0,
      0, 0, 1, 192]]"
  by (simp add: blocks.simps)

lemma schedule_secret_0:
  "schedule (words
    [116, 101, 115, 116, 112, 97, 115, 115, 119, 111, 114, 100,
     108, 77, 49, 71, 110, 99, 108, 101, 81, 79, 97, 67,
     117, 57, 108, 84, 49, 121, 101, 85, 90, 104, 70, 89,
     110, 113, 104, 115, 76, 76, 80, 49, 71, 53, 108, 65,
     71, 111, 51, 105, 120, 97, 73, 61, 128, 0, 0, 0,
     0, 0, 0, 0]) [16..<64] =
    [1952805748, 1885434739, 2003792484, 1816998215, 1852009573, 1364156739,
     1966697556, 830039381, 1516783193, 1852926067, 1280069681, 1194683457,
     1198469993, 2019641661, 2147483648, 0, 2535939191, 3611816215,
     3543578270, 3596817971, 3376994987, 3096554647, 3766799949, 1426546650,
     3784685843, 80249530, 1606149783, 2017665433, 3074637952, 1590147947,
     2642738547, 926707559, 1176780687, 2076023171, 2626546818, 2242317620,
     3343764913, 1903644194, 3776755189, 1068117732, 2114805366, 3504717528,
     3756794811, 1874525580, 4061637967, 757610282, 3551651830, 3966764320,
     1444640042, 3410048607, 2606850038, 1033952006, 299755115, 2528296700,
     1639741228, 1391085599, 3267735912, 1041024083, 914487483, 3879372387,
     2823268346, 819321870, 2867010697, 2280025944]"
  by (simp add: add32_def sigma0_def sigma1_def rotr_def)

lemma rounds_secret_0:
  "foldl round
    [1779033703, 3144134277, 1013904242, 2773480762,
     1359893119, 2600822924, 528734635, 1541459225]
    (zip K
    [1952805748, 1885434739, 2003792484, 1816998215, 1852009573, 1364156739,
     1966697556, 830039381, 1516783193, 1852926067, 1280069681, 1194683457,
     1198469993, 2019641661, 2147483648, 0, 2535939191, 3611816215,
     3543578270, 3596817971, 3376994987, 3096554647, 3766799949, 1426546650,
     3784685843, 80249530, 1606149783, 2017665433, 3074637952, 1590147947,
     2642738547, 926707559, 1176780687, 2076023171, 2626546818, 2242317620,
     3343764913, 1903644194, 3776755189, 1068117732, 2114805366, 3504717528,
     3756794811, 1874525580, 4061637967, 757610282, 3551651830, 3966764320,
     1444640042, 3410048607, 2606850038, 1033952006, 299755115, 2528296700,
     1639741228, 1391085599, 3267735912, 1041024083, 914487483, 3879372387,
     2823268346, 819321870, 2867010697, 2280025944]) =
    [2648499199, 3712229207, 3450414868, 127486087,
     3318707237, 755434896, 2837761417, 1194079860]"
  by (simp add: K_def add32_def Sigma0_def Sigma1_def Ch_def Maj_def rotr_def Let_def)

lemma compress_secret_0:
  "compress
    [1779033703, 3144134277, 1013904242, 2773480762,
     1359893119, 2600822924, 528734635, 1541459225]
    [116, 101, 115, 116, 112, 97, 115, 115, 119, 111, 114, 100,
     108, 77, 49, 71, 110, 99, 108, 101, 81, 79, 97, 67,
     117, 57, 108, 84, 49, 121, 101, 85, 90, 104, 70, 89,
     110, 113, 104, 115, 76, 76, 80, 49, 71, 53, 108, 65,
     71, 111, 51, 105, 120, 97, 73, 61, 128, 0, 0, 0,
     0, 0, 0, 0] =
    [132565606, 2561396188, 169351814, 2900966849,
     383633060, 3356257820, 3366496052, 2735539085]"
  unfolding compress_def schedule_secret_0 rounds_secret_0
  by (simp add: add32_def)

lemma schedule_secret_1:
  "schedule (words
    [0, 0, 0, 0, 0, 0, 0, 0, 0, 0, 0, 0,
     0, 0, 0, 0, 0, 0, 0, 0, 0, 0, 0, 0,
     0, 0, 0, 0, 0, 0, 0, 0, 0, 0, 0, 0,
     0, 0, 0, 0, 0, 0, 0, 0, 0, 0, 0, 0,
     0, 0, 0, 0, 0, 0, 0, 0, 0, 0, 0, 0,
     0, 0, 1, 192]) [16..<64] =
    [0, 0, 0, 0, 0, 0,
     0, 0, 0, 0, 0, 0,
     0, 0, 0, 448, 0, 14155776,
     0, 13943, 0, 502620173, 448, 469782556,
     28311552, 571116948, 41829, 393222119, 1674805301, 151697171,
     1282750922, 253339849, 1576317124, 3797353322, 3380328177, 3316936525,
     4163189838, 2774061449, 2020172421, 3976663423, 275994870, 957015190,
     1448087714, 3307044164, 2658453874, 1712633185, 821826205, 2596701352,
     728075709, 3801151379, 2666246732, 2534651358, 1090919095, 3760382523,
     124913566, 2111974812, 3367516024, 1973917769, 3644702171, 167996573,
     3410979526, 2185205730, 3928959610, 3103886162]"
  by (simp add: add32_def sigma0_def sigma1_def rotr_def)

lemma rounds_secret_1:
  "foldl round
    [132565606, 2561396188, 169351814, 2900966849,
     383633060, 3356257820, 3366496052, 2735539085]
    (zip K
    [0, 0, 0, 0, 0, 0,
     0, 0, 0, 0, 0, 0,
     0, 0, 0, 448, 0, 14155776,
     0, 13943, 0, 502620173, 448, 469782556,
     28311552, 571116948, 41829, 393222119, 1674805301, 151697171,
     1282750922, 253339849, 1576317124, 3797353322, 3380328177, 3316936525,
     4163189838, 2774061449, 2020172421, 3976663423, 275994870, 957015190,
     1448087714, 3307044164, 2658453874, 1712633185, 821826205, 2596701352,
     728075709, 3801151379, 2666246732, 2534651358, 1090919095, 3760382523,
     124913566, 2111974812, 3367516024, 1973917769, 3644702171, 167996573,
     3410979526, 2185205730, 3928959610, 3103886162]) =
    [3800126061, 853188565, 2589817310, 3739085345,
     3857439381, 3041129510, 16417562, 3609152240]"
  by (simp add: K_def add32_def Sigma0_def Sigma1_def Ch_def Maj_def rotr_def Let_def)

lemma compress_secret_1:
  "compress
    [132565606, 2561396188, 169351814, 2900966849,
     383633060, 3356257820, 3366496052, 2735539085]
    [0, 0, 0, 0, 0, 0, 0, 0, 0, 0, 0, 0,
     0, 0, 0, 0, 0, 0, 0, 0, 0, 0, 0, 0,
     0, 0, 0, 0, 0, 0, 0, 0, 0, 0, 0, 0,
     0, 0, 0, 0, 0, 0, 0, 0, 0, 0, 0, 0,
     0, 0, 0, 0, 0, 0, 0, 0, 0, 0, 0, 0,
     0, 0, 1, 192] =
    [3932691667, 3414584753, 2759169124, 2345084898,
     4241072441, 2102420034, 3382913614, 2049724029]"
  unfolding compress_def schedule_secret_1 rounds_secret_1
  by (simp add: add32_def)

lemma digest_secret:
  "digest_SHA256
    [116, 101, 115, 116, 112, 97, 115, 115, 119, 111, 114, 100,
     108, 77, 49, 71, 110, 99, 108, 101, 81, 79, 97, 67,
     117, 57, 108, 84, 49, 121, 101, 85, 90, 104, 70, 89,
     110, 113, 104, 115, 76, 76, 80, 49, 71, 53, 108, 65,
     71, 111, 51, 105, 120, 97, 73, 61] =
    [234, 104, 28, 211, 203, 134, 109, 177, 164, 117, 148, 100,
     139, 199, 39, 226, 252, 201, 161, 57, 125, 80, 98, 66,
     201, 163, 42, 78, 122, 44, 78, 125]"
  unfolding digest_SHA256_def pad_secret blocks_secret H0_def foldl.simps compress_secret_0 compress_secret_1
  by (simp add: be32_def)

lemma btoa_secret:
  "btoa_bytes
    [234, 104, 28, 211, 203, 134, 109, 177, 164, 117, 148, 100,
     139, 199, 39, 226, 252, 201, 161, 57, 125, 80, 98, 66,
     201, 163, 42, 78, 122, 44, 78, 125] =
    ''6mgc08uGbbGkdZRki8cn4vzJoTl9UGJCyaMqTnosTn0=''"
  by (simp add: base64_alphabet_def)

lemma encode_auth:
  "TextEncoder_encode (''6mgc08uGbbGkdZRki8cn4vzJoTl9UGJCyaMqTnosTn0='' @ ''+IxH4CnCiqpX1rM9scsNynZzbOe4KhDeYcTNS3PDaeY='') =
    [54, 109, 103, 99, 48, 56, 117, 71, 98, 98, 71, 107,
     100, 90, 82, 107, 105, 56, 99, 110, 52, 118, 122, 74,
     111, 84, 108, 57, 85, 71, 74, 67, 121, 97, 77, 113,
     84, 110, 111, 115, 84, 110, 48, 61, 43, 73, 120, 72,
     52, 67, 110, 67, 105, 113, 112, 88, 49, 114, 77, 57,
     115, 99, 115, 78, 121, 110, 90, 122, 98, 79, 101, 52,
     75, 104, 68, 101, 89, 99, 84, 78, 83, 51, 80, 68,
     97, 101, 89, 61]"
  by (simp add: TextEncoder_encode_def)

lemma pad_auth:
  "pad
    [54, 109, 103, 99, 48, 56, 117, 71, 98, 98, 71, 107,
     100, 90, 82, 107, 105, 56, 99, 110, 52, 118, 122, 74,
     111, 84, 108, 57, 85, 71, 74, 67, 121, 97, 77, 113,
     84, 110, 111, 115, 84, 110, 48, 61, 43, 73, 120, 72,
     52, 67, 110, 67, 105, 113, 112, 88, 49, 114, 77, 57,
     115, 99, 115, 78, 121, 110, 90, 122, 98, 79, 101, 52,
     75, 104, 68, 101, 89, 99, 84, 78, 83, 51, 80, 68,
     97, 101, 89, 61] =
    [54, 109, 103, 99, 48, 56, 117, 71, 98, 98, 71, 107,
     100, 90, 82, 107, 105, 56, 99, 110, 52, 118, 122, 74,
     111, 84, 108, 57, 85, 71, 74, 67, 121, 97, 77, 113,
     84, 110, 111, 115, 84, 110, 48, 61, 43, 73, 120, 72,
     52, 67, 110, 67, 105, 113, 112, 88, 49, 114, 77, 57,
     115, 99, 115, 78, 121, 110, 90, 122, 98, 79, 101, 52,
     75, 104, 68, 101, 89, 99, 84, 78, 83, 51, 80, 68,
     97, 101, 89, 61, 128, 0, 0, 0, 0, 0, 0, 0,
     0, 0, 0, 0, 0, 0, 0, 0, 0, 0, 0, 0,
     0, 0, 0, 0, 0, 0, 0, 0, 0, 0, 0, 0,
     0, 0, 0, 0, 0, 0, 2, 192]"
  by (simp add: pad_def be64_def be32_def replicate_numeral_Cons)

lemma blocks_auth:
  "blocks
    [54, 109, 103, 99, 48, 56, 117, 71, 98, 98, 71, 107,
     100, 90, 82, 107, 105, 56, 99, 110, 52, 118, 122, 74,
     111, 84, 108, 57, 85, 71, 74, 67, 121, 97, 77, 113,
     84, 110, 111, 115, 84, 110, 48, 61, 43, 73, 120, 72,
     52, 67, 110, 67, 105, 113, 112, 88, 49, 114, 77, 57,
     115, 99, 115, 78, 121, 110, 90, 122, 98, 79, 101, 52,
     75, 104, 68, 101, 89, 99, 84, 78, 83, 51, 80, 68,
     97, 101, 89, 61, 128, 0, 0, 0, 0, 0, 0, 0,
     0, 0, 0, 0, 0, 0, 0, 0, 0, 0, 0, 0,
     0, 0, 0, 0, 0, 0, 0, 0, 0, 0, 0, 0,
     0, 0, 0, 0, 0, 0, 2, 192] =
    [[54, 109, 103, 99, 48, 56, 117, 71, 98, 98, 71, 107,
      100, 90, 82, 107, 105, 56, 99, 110, 52, 118, 122, 74,
      111, 84, 108, 57, 85, 71, 74, 67, 121, 97, 77, 113,
      84, 110, 111, 115, 84, 110, 48, 61, 43, 73, 120, 72,
      52, 67, 110, 67, 105, 113, 112, 88, 49, 114, 77, 57,
      115, 99, 115, 78],
     [121, 110, 90, 122, 98, 79, 101, 52, 75, 104, 68, 101,
      89, 99, 84, 78, 83, 51, 80, 68, 97, 101, 89, 61,
      128, 0, 0, 0, 0, 0, 0, 0, 0, 0, 0, 0,
      0, 0, 0, 0, 0, 0, 0, 0, 0, 0, 0, 0,
      0, 0, 0, 0, 0, 0, 0, 0, 0, 0, 0, 0,
      0, 0, 2, 192]]"
  by (simp add: blocks.simps)

lemma schedule_auth_0:
  "schedule (words
    [54, 109, 103, 99, 48, 56, 117, 71, 98, 98, 71, 107,
     100, 90, 82, 107, 105, 56, 99, 110, 52, 118, 122, 74,
     111, 84, 108, 57, 85, 71, 74, 67, 121, 97, 77, 113,
     84, 110, 111, 115, 84, 110, 48, 61, 43, 73, 120, 72,
     52, 67, 110, 67, 105, 113, 112, 88, 49, 114, 77, 57,
     115, 99, 115, 78]) [16..<64] =
    [913139555, 809006407, 1650607979, 1683640939, 1765303150, 880179786,
     1867803705, 1430735427, 2036419953, 1416523635, 1416507453, 726235208,
     876834371, 1769042008, 829574457, 1935897422, 2404018982, 2815109504,
     1431907464, 1403411817, 2464086194, 2939203645, 3837148830, 4047968551,
     1909177950, 360530628, 473614596, 584609343, 50624607, 1878741891,
     607599539, 1863831778, 4282745806, 664810687, 962387951, 1019165505,
     966104466, 4247229561, 1673977700, 2254873228, 669423307, 2383321286,
     1413515420, 2620874859, 892667019, 3691258680, 175889972, 263217382,
     2579940911, 2800735142, 3704055029, 3416757286, 2108547034, 3014596242,
     1759744747, 3236373295, 3304438180, 4036994164, 2825144844, 2455505359,
     4165512809, 1773728110, 3824927130, 950494617]"
  by (simp add: add32_def sigma0_def sigma1_def rotr_def)

lemma rounds_auth_0:
  "foldl round
    [1779033703, 3144134277, 1013904242, 2773480762,
     1359893119, 2600822924, 528734635, 1541459225]
    (zip K
    [913139555, 809006407, 1650607979, 1683640939, 1765303150, 880179786,
     1867803705, 1430735427, 2036419953, 1416523635, 1416507453, 726235208,
     876834371, 1769042008, 829574457, 1935897422, 2404018982, 2815109504,
     1431907464, 1403411817, 2464086194, 2939203645, 3837148830, 4047968551,
     1909177950, 360530628, 473614596, 584609343, 50624607, 1878741891,
     607599539, 1863831778, 4282745806, 664810687, 962387951, 1019165505,
     966104466, 4247229561, 1673977700, 2254873228, 669423307, 2383321286,
     1413515420, 2620874859, 892667019, 3691258680, 175889972, 263217382,
     2579940911, 2800735142, 3704055029, 3416757286, 2108547034, 3014596242,
     1759744747, 3236373295, 3304438180, 4036994164, 2825144844, 2455505359,
     4165512809, 1773728110, 3824927130, 950494617]) =
    [3551228865, 1587949532, 334664628, 1495582336,
     3199738017, 694082195, 1626460004, 1593943342]"
  by (simp add: K_def add32_def Sigma0_def Sigma1_def Ch_def Maj_def rotr_def Let_def)

lemma compress_auth_0:
  "compress
    [1779033703, 3144134277, 1013904242, 2773480762,
     1359893119, 2600822924, 528734635, 1541459225]
    [54, 109, 103, 99, 48, 56, 117, 71, 98, 98, 71, 107,
     100, 90, 82, 107, 105, 56, 99, 110, 52, 118, 122, 74,
     111, 84, 108, 57, 85, 71, 74, 67, 121, 97, 77, 113,
     84, 110, 111, 115, 84, 110, 48, 61, 43, 73, 120, 72,
     52, 67, 110, 67, 105, 113, 112, 88, 49, 114, 77, 57,
     115, 99, 115, 78] =
    [1035295272, 437116513, 1348568870, 4269063098,
     264663840, 3294905119, 2155194639, 3135402567]"
  unfolding compress_def schedule_auth_0 rounds_auth_0
  by (simp add: add32_def)

lemma schedule_auth_1:
  "schedule (words
    [121, 110, 90, 122, 98, 79, 101, 52, 75, 104, 68, 101,
     89, 99, 84, 78, 83, 51, 80, 68, 97, 101, 89, 61,
     128, 0, 0, 0, 0, 0, 0, 0, 0, 0, 0, 0,
     0, 0, 0, 0, 0, 0, 0, 0, 0, 0, 0, 0,
     0, 0, 0, 0, 0, 0, 0, 0, 0, 0, 0, 0,
     0, 0, 2, 192]) [16..<64] =
    [2037275258, 1649370420, 1265124453, 1499681870, 1395871812, 1634031933,
     2147483648, 0, 0, 0, 0, 0,
     0, 0, 0, 704, 925812089, 912912402,
     1209267617, 1983591479, 4165669894, 1860588628, 1757263017, 401197235,
     2739250742, 626919708, 3727722714, 3186611596, 3290959184, 2031511400,
     2681026978, 3898796052, 4143259230, 4106712526, 3758338416, 1723801959,
     1344538102, 3056014857, 3933255505, 2305483390, 2754340037, 3204534578,
     3479707915, 1258161264, 3572590096, 1054493966, 1477512105, 3764203336,
     3098595387, 138501011, 2809757979, 2856573361, 1068535195, 961224553,
     1994335863, 2507136607, 1260956185, 2171428339, 585068496, 4073355529,
     4047280885, 1152073357, 2444368711, 2020970235]"
  by (simp add: add32_def sigma0_def sigma1_def rotr_def)

lemma rounds_auth_1:
  "foldl round
    [1035295272, 437116513, 1348568870, 4269063098,
     264663840, 3294905119, 2155194639, 3135402567]
    (zip K
    [2037275258, 1649370420, 1265124453, 1499681870, 1395871812, 1634031933,
     2147483648, 0, 0, 0, 0, 0,
     0, 0, 0, 704, 925812089, 912912402,
     1209267617, 1983591479, 4165669894, 1860588628, 1757263017, 401197235,
     2739250742, 626919708, 3727722714, 3186611596, 3290959184, 2031511400,
     2681026978, 3898796052, 4143259230, 4106712526, 3758338416, 1723801959,
     1344538102, 3056014857, 3933255505, 2305483390, 2754340037, 3204534578,
     3479707915, 1258161264, 3572590096, 1054493966, 1477512105, 3764203336,
     3098595387, 138501011, 2809757979, 2856573361, 1068535195, 961224553,
     1994335863, 2507136607, 1260956185, 2171428339, 585068496, 4073355529,
     4047280885, 1152073357, 2444368711, 2020970235]) =
    [2865963068, 886134860, 1634061017, 4114023350,
     3889081918, 960933118, 1134306449, 1565775914]"
  by (simp add: K_def add32_def Sigma0_def Sigma1_def Ch_def Maj_def rotr_def Let_def)

lemma compress_auth_1:
  "compress
    [1035295272, 437116513, 1348568870, 4269063098,
     264663840, 3294905119, 2155194639, 3135402567]
    [121, 110, 90, 122, 98, 79, 101, 52, 75, 104, 68, 101,
     89, 99, 84, 78, 83, 51, 80, 68, 97, 101, 89, 61,
     128, 0, 0, 0, 0, 0, 0, 0, 0, 0, 0, 0,
     0, 0, 0, 0, 0, 0, 0, 0, 0, 0, 0, 0,
     0, 0, 0, 0, 0, 0, 0, 0, 0, 0, 0, 0,
     0, 0, 2, 192] =
    [3901258340, 1323251373, 2982629887, 4088119152,
     4153745758, 4255838237, 3289501088, 406211185]"
  unfolding compress_def schedule_auth_1 rounds_auth_1
  by (simp add: add32_def)

lemma digest_auth:
  "digest_SHA256
    [54, 109, 103, 99, 48, 56, 117, 71, 98, 98, 71, 107,
     100, 90, 82, 107, 105, 56, 99, 110, 52, 118, 122, 74,
     111, 84, 108, 57, 85, 71, 74, 67, 121, 97, 77, 113,
     84, 110, 111, 115, 84, 110, 48, 61, 43, 73, 120, 72,
     52, 67, 110, 67, 105, 113, 112, 88, 49, 114, 77, 57,
     115, 99, 115, 78, 121, 110, 90, 122, 98, 79, 101, 52,
     75, 104, 68, 101, 89, 99, 84, 78, 83, 51, 80, 68,
     97, 101, 89, 61] =
    [232, 136, 122, 100, 78, 223, 54, 173, 177, 199, 81, 255,
     243, 171, 191, 112, 247, 149, 33, 94, 253, 170, 240, 29,
     196, 17, 205, 160, 24, 54, 74, 113]"
  unfolding digest_SHA256_def pad_auth blocks_auth H0_def foldl.simps compress_auth_0 compress_auth_1
  by (simp add: be32_def)

lemma btoa_auth:
  "btoa_bytes
    [232, 136, 122, 100, 78, 223, 54, 173, 177, 199, 81, 255,
     243, 171, 191, 112, 247, 149, 33, 94, 253, 170, 240, 29,
     196, 17, 205, 160, 24, 54, 74, 113] =
    ''6Ih6ZE7fNq2xx1H/86u/cPeVIV79qvAdxBHNoBg2SnE=''"
  by (simp add: base64_alphabet_def)

lemma generateAuth_literals:
  "generateAuth ''testpassword'' ''lM1GncleQOaCu9lT1yeUZhFYnqhsLLP1G5lAGo3ixaI='' ''+IxH4CnCiqpX1rM9scsNynZzbOe4KhDeYcTNS3PDaeY='' =
     ''6Ih6ZE7fNq2xx1H/86u/cPeVIV79qvAdxBHNoBg2SnE=''"
  unfolding generateAuth_def Let_def encode_secret digest_secret btoa_secret encode_auth digest_auth
    btoa_auth
  by (rule refl)

section \<open>Emission to listeners that neither emit nor register\<close>

lemma for_of_end: "length (sets s r) \<le> i \<Longrightarrow> for_of r event x i s = Some s"
  by (subst for_of.simps) simp

lemma for_of_skip:
  "i < length (sets s r) \<Longrightarrow> sets s r ! i = None \<Longrightarrow>
   for_of r event x i s = for_of r event x (Suc i) s"
  by (subst for_of.simps) simp

lemma for_of_call:
  "i < length (sets s r) \<Longrightarrow> sets s r ! i = Some l \<Longrightarrow> is_IdentifiedCb (callback_of l) = None \<Longrightarrow>
   for_of r event x i s =
     for_of r event x (Suc i) (caught event (run_callback (callback_of l) x (unwrap event l s)))"
  by (subst for_of.simps) simp

lemma quiet_not_identified: "quiet l \<Longrightarrow> is_IdentifiedCb (callback_of l) = None"
  by (cases "callback_of l") (simp_all add: quiet_def)

lemma live_simps [simp]:
  "live [] = []" "live (None # es) = live es" "live (Some a # es) = a # live es"
  by (simp_all add: live_def)

lemma set_live: "set (live es) = {a. Some a \<in> set es}"
  by (induction es) (auto simp: live_def split: option.splits)

lemma live_tomb: "live (map (tomb l) es) = removeAll l (live es)"
proof (induction es)
  case Nil
  then show ?case by simp
next
  case (Cons e es)
  then show ?case by (cases e) (auto simp: tomb_def)
qed

lemma tomb_absent: "Some l \<notin> set es \<Longrightarrow> map (tomb l) es = es"
  by (induction es) (auto simp: tomb_def)

lemma off_sets:
  "sets (off event l s) =
     (case listeners s event of None \<Rightarrow> sets s
      | Some r \<Rightarrow> (sets s)(r := map (tomb l) (sets s r)))"
proof -
  have "(\<lambda>e. if e = Some l then None else e) = tomb l" by (rule ext) (simp add: tomb_def)
  then show ?thesis by (auto simp: off_def Let_def split: option.splits)
qed

lemma quiet_step_sets:
  assumes "quiet l"
  shows "sets (quiet_step event x l s) = sets s \<or>
         (\<exists>r. sets (quiet_step event x l s) = (sets s)(r := map (tomb l) (sets s r)))"
proof -
  have u: "sets (unwrap event l s) = sets s \<or>
         (\<exists>r. sets (unwrap event l s) = (sets s)(r := map (tomb l) (sets s r)))"
    by (cases l) (auto simp: off_sets split: option.splits)
  have "sets (quiet_step event x l s) = sets (unwrap event l s)"
    using assms
    by (cases "callback_of l")
       (auto simp: quiet_step_def quiet_def caught_def console_error_listener_def reject_def
         split: option.splits)
  with u show ?thesis by simp
qed

lemma quiet_step_sets_at:
  assumes "quiet l"
  shows "sets (quiet_step event x l s) r = sets s r \<or>
         sets (quiet_step event x l s) r = map (tomb l) (sets s r)"
  using quiet_step_sets [OF assms, of event x s] by auto

lemma quiet_step_listeners:
  assumes "quiet l"
  shows "listeners (quiet_step event x l s) ev = listeners s ev \<or>
         listeners (quiet_step event x l s) ev = None"
proof -
  have u: "listeners (unwrap event l s) ev = listeners s ev \<or> listeners (unwrap event l s) ev = None"
    by (cases l) (auto simp: off_def Let_def split: option.splits)
  have "listeners (quiet_step event x l s) = listeners (unwrap event l s)"
    using assms
    by (cases "callback_of l")
       (auto simp: quiet_step_def quiet_def caught_def console_error_listener_def reject_def
         split: option.splits)
  with u show ?thesis by simp
qed

lemma quiet_set_step:
  assumes "quiet_set s ev" "quiet l"
  shows "quiet_set (quiet_step event x l s) ev"
proof (cases "listeners (quiet_step event x l s) ev")
  case None
  then show ?thesis by (simp add: quiet_set_def)
next
  case (Some r)
  with quiet_step_listeners [OF assms(2), of event x s ev]
  have lr: "listeners s ev = Some r" by auto
  from quiet_step_sets_at [OF assms(2), of event x s r]
  have c: "sets (quiet_step event x l s) r = sets s r \<or>
           sets (quiet_step event x l s) r = map (tomb l) (sets s r)" .
  have q: "\<forall>l. Some l \<in> set (sets s r) \<longrightarrow> quiet l" and d: "distinct (live (sets s r))"
    using assms(1) lr by (simp_all add: quiet_set_def)
  have "distinct (live (sets (quiet_step event x l s) r))"
    using c d by (auto simp: live_tomb distinct_removeAll)
  moreover have "\<forall>l'. Some l' \<in> set (sets (quiet_step event x l s) r) \<longrightarrow> quiet l'"
    using c q by (auto simp: tomb_def split: if_splits)
  ultimately show ?thesis using Some by (simp add: quiet_set_def)
qed

lemma user_set_step:
  assumes "user_set s ev" "quiet l"
  shows "user_set (quiet_step event x l s) ev"
proof (cases "listeners (quiet_step event x l s) ev")
  case None
  then show ?thesis by (simp add: user_set_def)
next
  case (Some r)
  with quiet_step_listeners [OF assms(2), of event x s ev]
  have lr: "listeners s ev = Some r" by auto
  from quiet_step_sets_at [OF assms(2), of event x s r]
  have c: "sets (quiet_step event x l s) r = sets s r \<or>
           sets (quiet_step event x l s) r = map (tomb l) (sets s r)" .
  have q: "\<forall>l. Some l \<in> set (sets s r) \<longrightarrow> (\<exists>n. callback_of l = UserFn n)"
    and d: "distinct (live (sets s r))"
    using assms(1) lr by (simp_all add: user_set_def)
  have "distinct (live (sets (quiet_step event x l s) r))"
    using c d by (auto simp: live_tomb distinct_removeAll)
  moreover have "\<forall>l'. Some l' \<in> set (sets (quiet_step event x l s) r) \<longrightarrow>
                   (\<exists>n. callback_of l' = UserFn n)"
    using c q by (auto simp: tomb_def split: if_splits)
  ultimately show ?thesis using Some by (simp add: user_set_def)
qed

lemma quiet_step_core:
  assumes "quiet l"
  shows "core (quiet_step event x l s) = core s"
proof -
  have u: "core (unwrap event l s) = core s"
    by (cases l) (auto simp: off_def Let_def core_def split: option.splits)
  have "core (quiet_step event x l s) = core (unwrap event l s)"
    using assms
    by (cases "callback_of l")
       (auto simp: quiet_step_def quiet_def caught_def console_error_listener_def reject_def
         core_def split: option.splits)
  with u show ?thesis by simp
qed

lemma unwrap_traces:
  "invoked (unwrap event l s) = invoked s" "console_error (unwrap event l s) = console_error s"
  "settled (unwrap event l s) = settled s" "user_throws (unwrap event l s) = user_throws s"
  by (cases l; auto simp: off_def Let_def split: option.splits)+

lemma quiet_step_traces:
  assumes "quiet l"
  shows "invoked (quiet_step event x l s) = invoked s @ map (\<lambda>n. (n, x)) (user_fns [l])"
    and "console_error (quiet_step event x l s) = console_error s @ thrown s event x (user_fns [l])"
    and "settled (quiet_step event x l s) =
           settled s @ map (\<lambda>c. (c, Rejected (reason x))) (error_cbs [l])"
  using assms
  by (cases "callback_of l";
      auto simp: quiet_step_def quiet_def caught_def console_error_listener_def reject_def
        thrown_def unwrap_traces split: option.splits)+

lemma user_fns_append [simp]: "user_fns (xs @ ys) = user_fns xs @ user_fns ys"
  by (induction xs) (auto split: callback.splits)

lemma error_cbs_append [simp]: "error_cbs (xs @ ys) = error_cbs xs @ error_cbs ys"
  by (induction xs) (auto split: callback.splits)

lemma thrown_append [simp]: "thrown s event x (xs @ ys) = thrown s event x xs @ thrown s event x ys"
  by (simp add: thrown_def)

lemma thrown_cong: "user_throws s = user_throws t \<Longrightarrow> thrown s = thrown t"
  by (intro ext) (simp add: thrown_def)

lemma quiet_run_facts:
  assumes "\<forall>l. Some l \<in> set es \<longrightarrow> quiet l"
  shows "core (quiet_run event x es s) = core s \<and>
         invoked (quiet_run event x es s) = invoked s @ map (\<lambda>n. (n, x)) (user_fns (live es)) \<and>
         console_error (quiet_run event x es s) =
           console_error s @ thrown s event x (user_fns (live es)) \<and>
         settled (quiet_run event x es s) =
           settled s @ map (\<lambda>c. (c, Rejected (reason x))) (error_cbs (live es))"
  using assms
proof (induction es arbitrary: s)
  case Nil
  then show ?case by (simp add: thrown_def)
next
  case (Cons e es)
  show ?case
  proof (cases e)
    case None
    then show ?thesis using Cons by simp
  next
    case (Some l)
    have ql: "quiet l" using Cons.prems Some by simp
    let ?s = "quiet_step event x l s"
    have ih: "core (quiet_run event x es ?s) = core ?s \<and>
         invoked (quiet_run event x es ?s) = invoked ?s @ map (\<lambda>n. (n, x)) (user_fns (live es)) \<and>
         console_error (quiet_run event x es ?s) =
           console_error ?s @ thrown ?s event x (user_fns (live es)) \<and>
         settled (quiet_run event x es ?s) =
           settled ?s @ map (\<lambda>c. (c, Rejected (reason x))) (error_cbs (live es))"
      by (rule Cons.IH) (use Cons.prems in auto)
    have c: "core ?s = core s" by (rule quiet_step_core [OF ql])
    then have "user_throws ?s = user_throws s" by (simp add: core_def)
    then have th: "thrown ?s = thrown s" by (rule thrown_cong)
    have split: "user_fns (live (e # es)) = user_fns [l] @ user_fns (live es)"
      "error_cbs (live (e # es)) = error_cbs [l] @ error_cbs (live es)"
      using Some by (simp_all split: callback.splits)
    show ?thesis
      using ih c quiet_step_traces [OF ql, of event x s]
      unfolding split th Some by (simp add: thrown_def split: callback.splits)
  qed
qed

lemma quiet_run_sets:
  assumes "\<forall>l. Some l \<in> set es \<longrightarrow> quiet l" "P s"
    and "\<And>l t. quiet l \<Longrightarrow> P t \<Longrightarrow> P (quiet_step event x l t)"
  shows "P (quiet_run event x es s)"
  using assms(1,2)
proof (induction es arbitrary: s)
  case Nil
  then show ?case by simp
next
  case (Cons e es)
  then show ?case by (cases e) (auto intro: assms(3))
qed

lemma drop_eq_Cons:
  assumes "drop i xs = e # es"
  shows "i < length xs" "xs ! i = e" "drop (Suc i) xs = es"
proof -
  show i: "i < length xs"
  proof (rule ccontr)
    assume "\<not> i < length xs"
    then have "drop i xs = []" by simp
    with assms show False by simp
  qed
  from Cons_nth_drop_Suc [OF i] assms show "xs ! i = e" "drop (Suc i) xs = es" by simp_all
qed

lemma for_of_quiet:
  assumes "drop i (sets s r) = es" "\<forall>l. Some l \<in> set es \<longrightarrow> quiet l" "distinct (live es)"
  shows "for_of r event x i s = Some (quiet_run event x es s)"
  using assms
proof (induction es arbitrary: i s)
  case Nil
  then show ?case by (simp add: for_of_end)
next
  case (Cons e es)
  note i = drop_eq_Cons(1) [OF Cons.prems(1)] and e = drop_eq_Cons(2) [OF Cons.prems(1)]
    and rest = drop_eq_Cons(3) [OF Cons.prems(1)]
  show ?case
  proof (cases e)
    case None
    have "for_of r event x (Suc i) s = Some (quiet_run event x es s)"
      by (rule Cons.IH) (use rest Cons.prems None in auto)
    then show ?thesis using i e None by (simp add: for_of_skip)
  next
    case (Some l)
    have ql: "quiet l" using Cons.prems(2) Some by simp
    have notin: "Some l \<notin> set es" using Cons.prems(3) Some by (simp add: set_live)
    let ?s = "quiet_step event x l s"
    have "drop (Suc i) (sets ?s r) = es"
    proof -
      from quiet_step_sets_at [OF ql, of event x s r]
      show ?thesis
      proof
        assume "sets ?s r = sets s r"
        then show ?thesis using rest by simp
      next
        assume "sets ?s r = map (tomb l) (sets s r)"
        then have "drop (Suc i) (sets ?s r) = map (tomb l) es"
          using rest by (simp add: drop_map)
        then show ?thesis using notin by (simp add: tomb_absent)
      qed
    qed
    then have "for_of r event x (Suc i) ?s = Some (quiet_run event x es ?s)"
      by (rule Cons.IH) (use Cons.prems Some in auto)
    then show ?thesis
      using i e Some ql by (simp add: for_of_call quiet_not_identified quiet_step_def)
  qed
qed

lemma emit_quiet:
  assumes "quiet_set s event"
  shows "emit event x s =
           Some (case listeners s event of None \<Rightarrow> s | Some r \<Rightarrow> quiet_run event x (sets s r) s)"
proof (cases "listeners s event")
  case None
  then show ?thesis by (simp add: emit_def)
next
  case (Some r)
  have "for_of r event x 0 s = Some (quiet_run event x (sets s r) s)"
    by (rule for_of_quiet) (use assms Some in \<open>auto simp: quiet_set_def\<close>)
  then show ?thesis using Some by (simp add: emit_def)
qed

lemma user_set_quiet: "user_set s event \<Longrightarrow> quiet_set s event"
  by (auto simp: user_set_def quiet_set_def quiet_def split: option.splits)

text \<open>What an emission to quiet listeners does, in one statement.\<close>

lemma emit_quiet_facts:
  assumes "quiet_set s event"
  shows "\<exists>t. emit event x s = Some t \<and> core t = core s \<and>
           invoked t = invoked s @ map (\<lambda>n. (n, x)) (user_fns (listening s event)) \<and>
           console_error t = console_error s @ thrown s event x (user_fns (listening s event)) \<and>
           settled t = settled s @ map (\<lambda>c. (c, Rejected (reason x))) (error_cbs (listening s event)) \<and>
           (\<forall>ev. quiet_set s ev \<longrightarrow> quiet_set t ev) \<and> (\<forall>ev. user_set s ev \<longrightarrow> user_set t ev)"
proof (cases "listeners s event")
  case None
  then show ?thesis by (simp add: emit_def listening_def thrown_def)
next
  case (Some r)
  have q: "\<forall>l. Some l \<in> set (sets s r) \<longrightarrow> quiet l"
    using assms Some by (simp add: quiet_set_def)
  let ?t = "quiet_run event x (sets s r) s"
  have e: "emit event x s = Some ?t" using emit_quiet [OF assms, of x] Some by simp
  have "\<forall>ev. quiet_set s ev \<longrightarrow> quiet_set ?t ev"
  proof (intro allI impI)
    fix ev assume "quiet_set s ev"
    then show "quiet_set ?t ev"
      by (rule quiet_run_sets [OF q]) (rule quiet_set_step)
  qed
  moreover have "\<forall>ev. user_set s ev \<longrightarrow> user_set ?t ev"
  proof (intro allI impI)
    fix ev assume "user_set s ev"
    then show "user_set ?t ev"
      by (rule quiet_run_sets [OF q]) (rule user_set_step)
  qed
  ultimately show ?thesis
    using e quiet_run_facts [OF q, of event x s] Some by (simp add: listening_def)
qed

section \<open>Closing and reconnecting\<close>


lemma user_set_cong:
  "listeners t = listeners s \<Longrightarrow> sets t = sets s \<Longrightarrow> user_set t ev = user_set s ev"
  by (simp add: user_set_def split: option.splits)

lemma quiet_set_cong:
  "listeners t = listeners s \<Longrightarrow> sets t = sets s \<Longrightarrow> quiet_set t ev = quiet_set s ev"
  by (simp add: quiet_set_def split: option.splits)

lemma listening_cong:
  "listeners t = listeners s \<Longrightarrow> sets t = sets s \<Longrightarrow> listening t ev = listening s ev"
  by (simp add: listening_def split: option.splits)

lemma reject_all_fold:
  "foldl (\<lambda>t entry. reject (snd entry) e t) s xs =
     s\<lparr>settled := settled s @ map (\<lambda>entry. (snd entry, Rejected e)) xs\<rparr>"
  by (induction xs arbitrary: s) (simp_all add: reject_def)

lemma reject_all_eq:
  "reject_all s =
     s\<lparr>settled := settled s @
          map (\<lambda>entry. (snd entry, Rejected (Error ''Connection closed''))) (pendingRequests s)\<rparr>"
  by (simp add: reject_all_def reject_all_fold)

lemma core_fields:
  assumes "core t = core s"
  shows "ws t = ws s" "rpcVersion t = rpcVersion s" "isConnected t = isConnected s"
    "isIdentified t = isIdentified s" "pendingRequests t = pendingRequests s"
    "eventSubscriptions t = eventSubscriptions s" "logger t = logger s"
    "reconnectTimer t = reconnectTimer s" "reconnectDelay t = reconnectDelay s"
    "maxReconnectDelay t = maxReconnectDelay s" "shouldReconnect t = shouldReconnect s"
    "sent t = sent s" "closes t = closes s" "promises t = promises s" "wrappers t = wrappers s"
    "logged t = logged s" "user_throws t = user_throws s" "awaiting_auth t = awaiting_auth s"
    "next_set t = next_set s"
  using assms by (simp_all add: core_def)

lemma settled_pending_rejected:
  assumes "settled t = settled s @ map (\<lambda>entry. (snd entry, Rejected e)) xs @ rest"
    and "p \<in> snd ` set xs" and "promise_state s p = None"
  shows "promise_state t p = Some (Rejected e)"
proof -
  have "map_of (map (\<lambda>entry. (snd entry, Rejected e)) xs) p = Some (Rejected e)"
    using assms(2) by (induction xs) auto
  then show ?thesis
    using assms(3) by (simp add: promise_state_def assms(1) map_add_def)
qed

lemma user_fns_all:
  "\<forall>l \<in> set ls. \<exists>n. callback_of l = UserFn n \<Longrightarrow>
   map UserFn (user_fns ls) = map callback_of ls \<and> error_cbs ls = []"
  by (induction ls) auto

lemma user_set_listening:
  assumes "user_set s event"
  shows "map UserFn (user_fns (listening s event)) = map callback_of (listening s event)"
    and "error_cbs (listening s event) = []" and "distinct (listening s event)"
proof -
  have "\<forall>l \<in> set (listening s event). \<exists>n. callback_of l = UserFn n"
    using assms by (auto simp: user_set_def listening_def set_live split: option.splits)
  from user_fns_all [OF this]
  show "map UserFn (user_fns (listening s event)) = map callback_of (listening s event)"
    and "error_cbs (listening s event) = []" by simp_all
  show "distinct (listening s event)"
    using assms by (auto simp: user_set_def listening_def split: option.splits)
qed

lemma emit_user_facts:
  assumes "user_set s event"
  shows "\<exists>t. emit event x s = Some t \<and> core t = core s \<and>
           invoked t = invoked s @ map (\<lambda>n. (n, x)) (user_fns (listening s event)) \<and>
           console_error t = console_error s @ thrown s event x (user_fns (listening s event)) \<and>
           settled t = settled s \<and>
           (\<forall>ev. quiet_set s ev \<longrightarrow> quiet_set t ev) \<and> (\<forall>ev. user_set s ev \<longrightarrow> user_set t ev)"
  using emit_quiet_facts [OF user_set_quiet [OF assms], of x] user_set_listening(2) [OF assms]
  by simp

lemma close_sweep:
  assumes "user_set s ''ConnectionClosed''"
    and "listeners s0 = listeners s" "sets s0 = sets s"
  shows "\<exists>t. emit ''ConnectionClosed'' x ((reject_all s0)\<lparr>pendingRequests := []\<rparr>) = Some t \<and>
           core t = core ((reject_all s0)\<lparr>pendingRequests := []\<rparr>) \<and>
           settled t = settled s0 @
             map (\<lambda>entry. (snd entry, Rejected (Error ''Connection closed''))) (pendingRequests s0) \<and>
           invoked t = invoked s0 @ map (\<lambda>n. (n, x)) (user_fns (listening s ''ConnectionClosed'')) \<and>
           (\<forall>ev. user_set s ev \<longrightarrow> user_set t ev)"
proof -
  let ?s = "(reject_all s0)\<lparr>pendingRequests := []\<rparr>"
  have l: "listeners ?s = listeners s" "sets ?s = sets s"
    by (simp_all add: reject_all_eq assms)
  have u: "user_set ?s ''ConnectionClosed''"
    using assms(1) by (simp add: user_set_cong [OF l])
  from emit_user_facts [OF u, of x]
  obtain t where t: "emit ''ConnectionClosed'' x ?s = Some t" "core t = core ?s"
    "invoked t = invoked ?s @ map (\<lambda>n. (n, x)) (user_fns (listening ?s ''ConnectionClosed''))"
    "settled t = settled ?s" "\<forall>ev. user_set ?s ev \<longrightarrow> user_set t ev"
    by blast
  have "\<forall>ev. user_set s ev \<longrightarrow> user_set t ev"
    using t(5) by (simp add: user_set_cong [OF l])
  moreover have "invoked t = invoked ?s @ map (\<lambda>n. (n, x)) (user_fns (listening s ''ConnectionClosed''))"
    using t(3) unfolding listening_cong [OF l] .
  ultimately show ?thesis
    using t(1,2,4) by (simp add: reject_all_eq)
qed

lemma disconnect_facts:
  assumes "user_set s ''ConnectionClosed''"
  shows "\<exists>t. disconnect s = Some t \<and> pendingRequests t = [] \<and> \<not> isConnected t \<and>
           \<not> isIdentified t \<and> ws t = None \<and> reconnectTimer t = None \<and> \<not> shouldReconnect t \<and>
           reconnectDelay t = reconnectDelay s \<and> maxReconnectDelay t = maxReconnectDelay s \<and>
           settled t = settled s @
             map (\<lambda>entry. (snd entry, Rejected (Error ''Connection closed''))) (pendingRequests s) \<and>
           (\<forall>ev. user_set s ev \<longrightarrow> user_set t ev)"
proof -
  let ?x = "Payload (JObj [(''code'', JNum 1000), (''reason'', JStr ''Client disconnect'')])"
  define s4 where "s4 =
     (let s1 = s\<lparr>shouldReconnect := False\<rparr>;
          s2 = (if reconnectTimer s1 \<noteq> None then clearTimeout s1 else s1);
          s3 = (case ws s2 of
                  None \<Rightarrow> s2
                | Some sock \<Rightarrow> s2\<lparr>closes := closes s2 @ [(1000, ''Client disconnect'')], ws := None\<rparr>)
      in s3\<lparr>isConnected := False, isIdentified := False\<rparr>)"
  have d: "disconnect s = emit ''ConnectionClosed'' ?x ((reject_all s4)\<lparr>pendingRequests := []\<rparr>)"
    by (simp add: disconnect_def s4_def Let_def)
  have f: "listeners s4 = listeners s" "sets s4 = sets s" "settled s4 = settled s"
    "pendingRequests s4 = pendingRequests s" "\<not> isConnected s4" "\<not> isIdentified s4" "ws s4 = None"
    "reconnectTimer s4 = None" "\<not> shouldReconnect s4" "reconnectDelay s4 = reconnectDelay s"
    "maxReconnectDelay s4 = maxReconnectDelay s"
    by (auto simp: s4_def Let_def clearTimeout_def split: option.splits)
  from close_sweep [OF assms f(1,2), of ?x]
  obtain t where t: "emit ''ConnectionClosed'' ?x ((reject_all s4)\<lparr>pendingRequests := []\<rparr>) = Some t"
    "core t = core ((reject_all s4)\<lparr>pendingRequests := []\<rparr>)"
    "settled t = settled s4 @
       map (\<lambda>entry. (snd entry, Rejected (Error ''Connection closed''))) (pendingRequests s4)"
    "\<forall>ev. user_set s ev \<longrightarrow> user_set t ev"
    by blast
  note c = core_fields [OF t(2)]
  show ?thesis
    using d t(1,3,4) f c by (simp add: reject_all_eq)
qed

lemma handleClose_facts:
  assumes "user_set s ''ConnectionClosed''"
  shows "\<exists>t. handleClose close_code close_reason s = Some t \<and> pendingRequests t = [] \<and>
           \<not> isConnected t \<and> \<not> isIdentified t \<and> ws t = None \<and>
           shouldReconnect t = shouldReconnect s \<and>
           reconnectDelay t = reconnectDelay s \<and> maxReconnectDelay t = maxReconnectDelay s \<and>
           reconnectTimer t =
             (if shouldReconnect s \<and> close_code \<noteq> 1000 then Some (reconnectDelay s)
              else reconnectTimer s) \<and>
           settled t = settled s @
             map (\<lambda>entry. (snd entry, Rejected (Error ''Connection closed''))) (pendingRequests s) \<and>
           (\<forall>ev. user_set s ev \<longrightarrow> user_set t ev)"
proof -
  let ?x = "Payload (JObj [(''code'', JNum close_code), (''reason'', JStr close_reason)])"
  define s2 where "s2 =
     (log LInfo ''WebSocket closed:'' [ANum close_code, AStr close_reason] s)
       \<lparr>isConnected := False, isIdentified := False, ws := None\<rparr>"
  have f: "listeners s2 = listeners s" "sets s2 = sets s" "settled s2 = settled s"
    "pendingRequests s2 = pendingRequests s" "\<not> isConnected s2" "\<not> isIdentified s2" "ws s2 = None"
    "reconnectTimer s2 = reconnectTimer s" "shouldReconnect s2 = shouldReconnect s"
    "reconnectDelay s2 = reconnectDelay s" "maxReconnectDelay s2 = maxReconnectDelay s"
    by (simp_all add: s2_def)
  from close_sweep [OF assms f(1,2), of ?x]
  obtain t where t: "emit ''ConnectionClosed'' ?x ((reject_all s2)\<lparr>pendingRequests := []\<rparr>) = Some t"
    "core t = core ((reject_all s2)\<lparr>pendingRequests := []\<rparr>)"
    "settled t = settled s2 @
       map (\<lambda>entry. (snd entry, Rejected (Error ''Connection closed''))) (pendingRequests s2)"
    "\<forall>ev. user_set s ev \<longrightarrow> user_set t ev"
    by blast
  note c = core_fields [OF t(2)]
  have h: "handleClose close_code close_reason s =
             Some (if shouldReconnect t \<and> close_code \<noteq> 1000 then scheduleReconnect t else t)"
    using t(1) by (simp add: handleClose_def s2_def Let_def)
  have sch: "listeners (scheduleReconnect t) = listeners t" "sets (scheduleReconnect t) = sets t"
    "pendingRequests (scheduleReconnect t) = pendingRequests t"
    "isConnected (scheduleReconnect t) = isConnected t"
    "isIdentified (scheduleReconnect t) = isIdentified t" "ws (scheduleReconnect t) = ws t"
    "shouldReconnect (scheduleReconnect t) = shouldReconnect t"
    "reconnectDelay (scheduleReconnect t) = reconnectDelay t"
    "maxReconnectDelay (scheduleReconnect t) = maxReconnectDelay t"
    "reconnectTimer (scheduleReconnect t) = Some (reconnectDelay t)"
    "settled (scheduleReconnect t) = settled t"
    by (simp_all add: scheduleReconnect_def Let_def clearTimeout_def)
  show ?thesis
  proof (cases "shouldReconnect t \<and> close_code \<noteq> 1000")
    case True
    have "\<forall>ev. user_set s ev \<longrightarrow> user_set (scheduleReconnect t) ev"
      using t(4) by (simp add: user_set_cong [OF sch(1,2)])
    then show ?thesis
      using True h t(3) f c sch by (simp add: reject_all_eq)
  next
    case False
    then show ?thesis
      using h t(3,4) f c by (auto simp: reject_all_eq)
  qed
qed

text \<open>
  Claim C5. When only functions of the caller listen to \<open>ConnectionClosed\<close>, both
  \<open>disconnect\<close> and \<open>handleClose\<close> (for every close code and reason) return; they call
  \<open>reject\<close> with the error \<open>Connection closed\<close> once for each of the entries of the map,
  in order, so that every promise among them that was pending is rejected with that
  error; the map is empty afterwards and \<open>connected\<close> is false.
\<close>

theorem close_rejects_every_pending:
  assumes "user_set s ''ConnectionClosed''"
  shows "(\<exists>t. disconnect s = Some t \<and> pendingRequests t = [] \<and> \<not> connected t \<and>
            settled t = settled s @
              map (\<lambda>entry. (snd entry, Rejected (Error ''Connection closed''))) (pendingRequests s) \<and>
            (\<forall>p \<in> snd ` set (pendingRequests s). promise_state s p = None \<longrightarrow>
               promise_state t p = Some (Rejected (Error ''Connection closed'')))) \<and>
         (\<exists>t. handleClose close_code close_reason s = Some t \<and> pendingRequests t = [] \<and>
            \<not> connected t \<and>
            settled t = settled s @
              map (\<lambda>entry. (snd entry, Rejected (Error ''Connection closed''))) (pendingRequests s) \<and>
            (\<forall>p \<in> snd ` set (pendingRequests s). promise_state s p = None \<longrightarrow>
               promise_state t p = Some (Rejected (Error ''Connection closed''))))"
proof -
  have r: "\<forall>p \<in> snd ` set (pendingRequests s). promise_state s p = None \<longrightarrow>
               promise_state t p = Some (Rejected (Error ''Connection closed''))"
    if "settled t = settled s @
          map (\<lambda>entry. (snd entry, Rejected (Error ''Connection closed''))) (pendingRequests s)"
    for t
    using settled_pending_rejected [of t s "Error ''Connection closed''" "pendingRequests s" "[]"] that
    by simp
  from disconnect_facts [OF assms]
  obtain t where t: "disconnect s = Some t" "pendingRequests t = []" "\<not> isConnected t"
    "settled t = settled s @
          map (\<lambda>entry. (snd entry, Rejected (Error ''Connection closed''))) (pendingRequests s)"
    by blast
  from handleClose_facts [OF assms, of close_code close_reason]
  obtain u where u: "handleClose close_code close_reason s = Some u" "pendingRequests u = []"
    "\<not> isConnected u"
    "settled u = settled s @
          map (\<lambda>entry. (snd entry, Rejected (Error ''Connection closed''))) (pendingRequests s)"
    by blast
  have "\<not> connected t" "\<not> connected u" using t(3) u(3) by (simp_all add: connected_def)
  with t u r [OF t(4)] r [OF u(4)] show ?thesis by blast
qed

lemma busy_eq:
  "busy = observed\<lparr>pendingRequests := [(''r1'', 1), (''r2'', 2)],
      sent := [Identify (JNum 1) None (Some 2047), Request ''GetVersion'' ''r1'' Undefined,
               Request ''GetStats'' ''r2'' Undefined],
      promises := 3,
      logged := logged observed @
        [(LDebug, ''Sending message:'', [ANum 6]), (LDebug, ''Sending message:'', [ANum 6])]\<rparr>"
  by (simp add: busy_def two_calls_def call_def connected_def observed_eq new_promise_def send_def
      log_def OPEN_def Let_def)

lemma user_set_observed:
  "user_set observed ''ConnectionClosed''" "user_set observed ''Reconnecting''"
  "user_set observed ''obs:reconnect''" "user_set observed ''ExitStarted''"
  by (simp_all add: user_set_def observed_eq)

lemma quiet_set_observed: "quiet_set observed ''obs:error''"
  by (auto simp: quiet_set_def observed_eq quiet_def)

lemma user_set_busy: "user_set busy ev = user_set observed ev"
  by (rule user_set_cong) (simp_all add: busy_eq)

lemma quiet_set_busy: "quiet_set busy ev = quiet_set observed ev"
  by (rule quiet_set_cong) (simp_all add: busy_eq)

lemma listening_observed:
  "listening observed ''ExitStarted'' = [Fn (UserFn 0), OnceWrapper 3 (UserFn 1), Fn (UserFn 2)]"
  "listening observed ''obs:error'' = [OnceWrapper 2 (ErrorCb 0), Fn (UserFn 3)]"
  by (simp_all add: listening_def observed_eq)

lemma listening_busy: "listening busy ev = listening observed ev"
  by (rule listening_cong) (simp_all add: busy_eq)

text \<open>Claim C5 on the session with listeners and two calls under way.\<close>

theorem close_rejects_every_pending_witness:
  "user_set busy ''ConnectionClosed'' \<and> snd ` set (pendingRequests busy) = {1, 2} \<and>
   promise_state busy 1 = None \<and> promise_state busy 2 = None \<and>
   map_option (\<lambda>t. (pendingRequests t, connected t, promise_state t 1, promise_state t 2))
     (disconnect busy) =
     Some ([], False, Some (Rejected (Error ''Connection closed'')),
           Some (Rejected (Error ''Connection closed''))) \<and>
   map_option (\<lambda>t. (pendingRequests t, connected t, promise_state t 1, promise_state t 2))
     (handleClose 1006 ''going away'' busy) =
     Some ([], False, Some (Rejected (Error ''Connection closed'')),
           Some (Rejected (Error ''Connection closed'')))"
proof -
  have u: "user_set busy ''ConnectionClosed''"
    by (simp add: user_set_busy user_set_observed)
  have p: "snd ` set (pendingRequests busy) = {1, 2}" "promise_state busy 1 = None"
    "promise_state busy 2 = None"
    by (auto simp: busy_eq observed_eq promise_state_def)
  from close_rejects_every_pending [OF u, of 1006 "''going away''"] p
  show ?thesis using u by auto
qed


section \<open>Events and malformed frames\<close>

lemma log_registry [simp]:
  "user_set (log l m a s) ev = user_set s ev" "quiet_set (log l m a s) ev = quiet_set s ev"
  "listening (log l m a s) ev = listening s ev"
  by (rule user_set_cong quiet_set_cong listening_cong; simp)+

lemma thrown_log [simp]: "thrown (log l m a s) = thrown s"
  by (rule thrown_cong) simp

text \<open>
  Claim C7. When the listeners of an event are functions of the caller (registered with
  \<open>on\<close> or \<open>once\<close>), \<open>emit\<close> returns, it has called every one of them, in insertion
  order, with the payload, whichever of them threw; what they threw went to
  \<^verbatim>\<open>console.error\<close>, and nothing else of the session changed. An Event frame is
  delivered in this way, with \<open>Undefined\<close> as payload when it has no \<open>eventData\<close>, and
  \<open>handleMessage\<close> returns normally.
\<close>

theorem emit_reaches_every_listener:
  assumes "user_set s event"
  shows "(\<exists>t. emit event x s = Some t \<and>
            invoked t = invoked s @ map (\<lambda>n. (n, x)) (user_fns (listening s event)) \<and>
            console_error t = console_error s @ thrown s event x (user_fns (listening s event)) \<and>
            core t = core s) \<and>
         map UserFn (user_fns (listening s event)) = map callback_of (listening s event) \<and>
         (JSON_parse frame = Inr (JSON_of (Event event intent eventData)) \<longrightarrow>
            (\<exists>t. handleMessage JSON_parse frame s = Some t \<and>
               invoked t =
                 invoked s @ map (\<lambda>n. (n, Payload eventData)) (user_fns (listening s event)) \<and>
               console_error t =
                 console_error s @ thrown s event (Payload eventData) (user_fns (listening s event)) \<and>
               core t =
                 core (log LDebug ''Event received:'' [AVal (JStr event)]
                         (log LDebug ''Received message:'' [AVal (JNum 5)] s))))"
proof -
  from emit_user_facts [OF assms, of x]
  have 1: "\<exists>t. emit event x s = Some t \<and>
            invoked t = invoked s @ map (\<lambda>n. (n, x)) (user_fns (listening s event)) \<and>
            console_error t = console_error s @ thrown s event x (user_fns (listening s event)) \<and>
            core t = core s"
    by blast
  note 2 = user_set_listening(1) [OF assms]
  have 3: "\<exists>t. handleMessage JSON_parse frame s = Some t \<and>
               invoked t =
                 invoked s @ map (\<lambda>n. (n, Payload eventData)) (user_fns (listening s event)) \<and>
               console_error t =
                 console_error s @ thrown s event (Payload eventData) (user_fns (listening s event)) \<and>
               core t =
                 core (log LDebug ''Event received:'' [AVal (JStr event)]
                         (log LDebug ''Received message:'' [AVal (JNum 5)] s))"
    if p: "JSON_parse frame = Inr (JSON_of (Event event intent eventData))"
  proof -
    let ?s = "log LDebug ''Event received:'' [AVal (JStr event)]
                (log LDebug ''Received message:'' [AVal (JNum 5)] s)"
    have e: "field (JObj ([(''eventType'', JStr event), (''eventIntent'', JNum intent)] @
                          entry ''eventData'' eventData)) ''eventData'' = eventData"
      by (simp add: entry_def)
    have d: "dispatch (JSON_of (Event event intent eventData)) s =
               map_option (Pair None) (emit event (Payload eventData) ?s)"
      by (simp add: dispatch_def handleEvent_def wire_fields read_object e Let_def del: field.simps)
         (simp add: entry_def)
    have u: "user_set ?s event" using assms by simp
    from emit_user_facts [OF u, of "Payload eventData"]
    obtain t where t: "emit event (Payload eventData) ?s = Some t"
      "invoked t = invoked ?s @ map (\<lambda>n. (n, Payload eventData)) (user_fns (listening ?s event))"
      "console_error t =
         console_error ?s @ thrown ?s event (Payload eventData) (user_fns (listening ?s event))"
      "core t = core ?s"
      by blast
    have h: "handleMessage JSON_parse frame s = Some t"
      by (simp add: handleMessage_def p d t(1) del: JSON_of.simps)
    show ?thesis unfolding h using t(2-4) by simp
  qed
  from 1 2 3 show ?thesis by blast
qed

text \<open>
  Claim C7 on the session with three listeners of \<open>ExitStarted\<close>, the first of which
  throws and the second of which was registered with \<open>once\<close>.
\<close>

theorem emit_reaches_every_listener_witness:
  "user_set observed ''ExitStarted'' \<and>
   example_parse ''exit started'' =
     Inr (JSON_of (Event ''ExitStarted'' 1 Undefined)) \<and>
   listening observed ''ExitStarted'' = [Fn (UserFn 0), OnceWrapper 3 (UserFn 1), Fn (UserFn 2)] \<and>
   user_throws observed 0 (Payload Undefined) = Some (Error ''listener failed'') \<and>
   map_option (\<lambda>t. (invoked t, console_error t))
     (handleMessage example_parse ''exit started'' observed) =
     Some ([(0, Payload Undefined), (1, Payload Undefined), (2, Payload Undefined)],
           [(''ExitStarted'', Error ''listener failed'')])"
proof -
  have p: "example_parse ''exit started'' =
     Inr (JSON_of (Event ''ExitStarted'' 1 Undefined))"
    by (simp add: example_parse_def)
  from emit_reaches_every_listener [OF user_set_observed(4), of "Payload Undefined" example_parse
      "''exit started''" 1 Undefined] p
  obtain t where t:
    "handleMessage example_parse ''exit started'' observed = Some t"
    "invoked t = invoked observed @
       map (\<lambda>n. (n, Payload Undefined)) (user_fns (listening observed ''ExitStarted''))"
    "console_error t = console_error observed @
       thrown observed ''ExitStarted'' (Payload Undefined) (user_fns (listening observed ''ExitStarted''))"
    by blast
  have i: "invoked observed = []" "console_error observed = []"
    "user_throws observed 0 (Payload Undefined) = Some (Error ''listener failed'')"
    "user_throws observed 1 (Payload Undefined) = None"
    "user_throws observed 2 (Payload Undefined) = None"
    by (simp_all add: observed_eq)
  have "map_option (\<lambda>t. (invoked t, console_error t))
     (handleMessage example_parse ''exit started'' observed) =
     Some ([(0, Payload Undefined), (1, Payload Undefined), (2, Payload Undefined)],
           [(''ExitStarted'', Error ''listener failed'')])"
    unfolding t(1) using t(2,3) i by (simp add: listening_observed thrown_def)
  then show ?thesis using user_set_observed(4) p i(3) listening_observed(1) by simp
qed

lemma promise_state_appended:
  assumes "settled t = settled s @ new" "promise_state s p \<noteq> None \<or> p \<notin> fst ` set new"
  shows "promise_state t p = promise_state s p"
proof -
  have "map_of new p = None" if "p \<notin> fst ` set new"
    using that by (simp add: map_of_eq_None_iff)
  then show ?thesis
    using assms(2) by (auto simp: promise_state_def assms(1) map_add_def split: option.splits)
qed

text \<open>
  Claim C9. When \<^verbatim>\<open>JSON.parse\<close> throws on a frame (and the listeners of \<open>obs:error\<close>
  are functions of the caller or the listeners \<open>identify\<close> registered), \<open>handleMessage\<close>
  returns: the error is logged and given to every listener of \<open>obs:error\<close>; the socket,
  \<open>isConnected\<close>, \<open>isIdentified\<close>, the map of pending requests and all other fields of
  the session are unchanged, nothing is sent or closed, and every promise keeps its
  state except the pending promise of a connection attempt that is waiting for
  Identified.
\<close>

theorem malformed_frame_ignored:
  assumes "JSON_parse frame = Inl err" and "quiet_set s ''obs:error''"
  shows "\<exists>t. handleMessage JSON_parse frame s = Some t \<and>
           ws t = ws s \<and> isConnected t = isConnected s \<and> isIdentified t = isIdentified s \<and>
           pendingRequests t = pendingRequests s \<and> sent t = sent s \<and> closes t = closes s \<and>
           core t = core (log LError ''Failed to parse message:'' [AErr err] s) \<and>
           invoked t = invoked s @ map (\<lambda>n. (n, Err err)) (user_fns (listening s ''obs:error'')) \<and>
           settled t =
             settled s @ map (\<lambda>c. (c, Rejected err)) (error_cbs (listening s ''obs:error'')) \<and>
           (\<forall>p. promise_state s p \<noteq> None \<or> p \<notin> set (error_cbs (listening s ''obs:error'')) \<longrightarrow>
                promise_state t p = promise_state s p)"
proof -
  let ?s = "log LError ''Failed to parse message:'' [AErr err] s"
  have h: "handleMessage JSON_parse frame s = emit ''obs:error'' (Err err) ?s"
    by (simp add: handleMessage_def parse_failed_def assms(1))
  have q: "quiet_set ?s ''obs:error''" using assms(2) by simp
  from emit_quiet_facts [OF q, of "Err err"]
  obtain t where t: "emit ''obs:error'' (Err err) ?s = Some t" "core t = core ?s"
    "invoked t = invoked ?s @ map (\<lambda>n. (n, Err err)) (user_fns (listening ?s ''obs:error''))"
    "settled t = settled ?s @
       map (\<lambda>c. (c, Rejected (reason (Err err)))) (error_cbs (listening ?s ''obs:error''))"
    by blast
  note c = core_fields [OF t(2)]
  have st: "settled t = settled s @ map (\<lambda>c. (c, Rejected err)) (error_cbs (listening s ''obs:error''))"
    using t(4) by simp
  have "promise_state t p = promise_state s p"
    if "promise_state s p \<noteq> None \<or> p \<notin> set (error_cbs (listening s ''obs:error''))" for p
    by (rule promise_state_appended [OF st]) (use that in \<open>auto simp: image_iff\<close>)
  then show ?thesis
    unfolding h using t(1,2,3) st c by simp
qed

text \<open>
  Claim C9 on the session with two calls under way, a listener of the caller and the
  listener that \<open>identify\<close> left on \<open>obs:error\<close>.
\<close>

theorem malformed_frame_ignored_witness:
  "example_parse ''<html>'' = Inl (SyntaxError ''Unexpected token'') \<and>
   quiet_set busy ''obs:error'' \<and>
   listening busy ''obs:error'' = [OnceWrapper 2 (ErrorCb 0), Fn (UserFn 3)] \<and>
   promise_state busy 0 = Some (Resolved Undefined) \<and>
   map_option
     (\<lambda>t. (ws t = ws busy, connected t, pendingRequests t, invoked t, promise_state t 0,
           promise_state t 1, promise_state t 2))
     (handleMessage example_parse ''<html>'' busy) =
     Some (True, True, [(''r1'', 1), (''r2'', 2)], [(3, Err (SyntaxError ''Unexpected token''))],
           Some (Resolved Undefined), None, None)"
proof -
  have p: "example_parse ''<html>'' = Inl (SyntaxError ''Unexpected token'')"
    by (simp add: example_parse_def)
  have q: "quiet_set busy ''obs:error''" by (simp add: quiet_set_busy quiet_set_observed)
  have l: "listening busy ''obs:error'' = [OnceWrapper 2 (ErrorCb 0), Fn (UserFn 3)]"
    by (simp add: listening_busy listening_observed)
  have b: "promise_state busy 0 = Some (Resolved Undefined)" "promise_state busy 1 = None"
    "promise_state busy 2 = None" "connected busy" "pendingRequests busy = [(''r1'', 1), (''r2'', 2)]"
    "invoked busy = []"
    by (simp_all add: busy_eq observed_eq promise_state_def connected_def)
  from malformed_frame_ignored [where JSON_parse = example_parse and frame = "''<html>''", OF p q]
  obtain t where t: "handleMessage example_parse ''<html>'' busy = Some t" "ws t = ws busy"
    "isConnected t = isConnected busy" "isIdentified t = isIdentified busy"
    "pendingRequests t = pendingRequests busy"
    "invoked t = invoked busy @
       map (\<lambda>n. (n, Err (SyntaxError ''Unexpected token''))) (user_fns (listening busy ''obs:error''))"
    "\<forall>p. promise_state busy p \<noteq> None \<or> p \<notin> set (error_cbs (listening busy ''obs:error'')) \<longrightarrow>
         promise_state t p = promise_state busy p"
    by blast
  have "promise_state t 0 = promise_state busy 0" "promise_state t 1 = promise_state busy 1"
    "promise_state t 2 = promise_state busy 2"
    using t(7) b(1) by (simp_all add: l)
  then have "map_option
     (\<lambda>t. (ws t = ws busy, connected t, pendingRequests t, invoked t, promise_state t 0,
           promise_state t 1, promise_state t 2))
     (handleMessage example_parse ''<html>'' busy) =
     Some (True, True, [(''r1'', 1), (''r2'', 2)], [(3, Err (SyntaxError ''Unexpected token''))],
           Some (Resolved Undefined), None, None)"
    unfolding t(1) using t(2-6) b by (simp add: connected_def l)
  then show ?thesis using p q l b(1) by simp
qed

section \<open>The handshake\<close>












text \<open>
  Claim C4. The claim does not hold of the code when a listener of an earlier
  connection attempt is still registered. \<open>connect\<close> registers its listener of
  \<open>obs:Hello\<close> with the password it was given, and nothing removes that listener when
  the socket closes before a Hello has arrived (the functions \<^verbatim>\<open>onClose\<close> and \<^verbatim>\<open>onError\<close>
  of \<open>connect\<close>, which would fail the attempt, are never registered on the socket).
  Here: \<open>connect\<close> with a password; the socket closes; \<open>connect\<close> without a password;
  the socket opens; a Hello with a challenge arrives. The promise of the second
  \<open>connect\<close> is rejected for the missing password, and yet an Identify frame with the
  authentication string of the first password is sent on the new socket, once the
  digest is ready.
\<close>

theorem stale_hello_listener_identifies:
  "fst (connect None (Some ''testpassword'') fresh) = 0 \<and> fst (connect None None abandoned) = 1 \<and>
   map_option
     (\<lambda>t. (promise_state t 0, promise_state t 1, sent t, sent (auth_ready t)))
     (handleMessage example_parse ''hello with challenge'' retried) =
     Some (None,
           Some (Rejected (Error ''Server requires authentication but no password provided'')),
           [],
           [Identify (JNum 1) (Some ''6Ih6ZE7fNq2xx1H/86u/cPeVIV79qvAdxBHNoBg2SnE='') (Some 2047)])"
  by (simp add: retried_def abandoned_def handleClose_def reject_all_def scheduleReconnect_def
      clearTimeout_def promise_state_def auth_ready_def generateAuth_any_def generateAuth_literals
      numeral_2_eq_2 numeral_3_eq_3 run_defs)

end
